theory Spec2Isabelle
  imports Complex_Main "HOL-Library.Sublist" "HOL-Library.Log_Nat"
begin

section \<open>Text: the part of Python's \<open>str\<close> and \<open>re\<close> that \<open>run_download\<close> uses\<close>

text \<open>
  A Python \<open>str\<close> is modelled by \<^typ>\<open>string\<close>, read as its UTF-8 bytes. Substring
  tests, literal regex text and the classes \<open>.\<close>, \<open>[^:]\<close> are the same on UTF-8 bytes as on
  code points. Python also counts some characters beyond ASCII as white space (for
  \<open>strip\<close>, \<open>\s\<close>) or as decimal digits (for \<open>\d\<close>, \<open>int\<close>, \<open>float\<close>); lines that carry
  such characters are outside this model. An \<open>int\<close> is unbounded; the limit that newer
  interpreters put on the number of digits \<open>int(text)\<close> accepts (a setting of the
  interpreter, 4300 digits unless changed) is not modelled.
\<close>

definition is_space :: "char \<Rightarrow> bool" where
  \<comment> \<open>\<open>str.isspace\<close> and \<open>\s\<close> on ASCII: TAB, LF, VT, FF, CR, FS, GS, RS, US, space\<close>
  "is_space c = (of_char c \<in> {9, 10, 11, 12, 13, 28, 29, 30, 31, 32 :: nat})"

definition is_digit :: "char \<Rightarrow> bool" where
  \<comment> \<open>\<open>\d\<close> on ASCII\<close>
  "is_digit c = (48 \<le> (of_char c :: nat) \<and> (of_char c :: nat) \<le> 57)"

definition strip :: "string \<Rightarrow> string" where
  \<comment> \<open>\<open>line.strip()\<close>\<close>
  "strip s = rev (dropWhile is_space (rev (dropWhile is_space s)))"

definition contains :: "string \<Rightarrow> string \<Rightarrow> bool" where
  \<comment> \<open>\<open>sub in line\<close>\<close>
  "contains sub line = sublist sub line"

definition int_of_digits :: "string \<Rightarrow> nat" where
  \<comment> \<open>\<open>int(text)\<close> for a text matched by \<open>\d+\<close>\<close>
  "int_of_digits ds = foldl (\<lambda>n c. 10 * n + (of_char c - 48)) 0 ds"

fun str_of_nat :: "nat \<Rightarrow> string" where
  "str_of_nat n =
     (if n < 10 then [char_of (48 + n)]
      else str_of_nat (n div 10) @ [char_of (48 + n mod 10)])"

declare str_of_nat.simps [simp del]

definition str_of_int :: "int \<Rightarrow> string" where
  \<comment> \<open>\<open>f"{i}"\<close> for an \<open>int\<close>\<close>
  "str_of_int i = (if i < 0 then CHR ''-'' # str_of_nat (nat (- i)) else str_of_nat (nat i))"

subsection \<open>Regular expressions\<close>

text \<open>
  The patterns of \<open>run_download\<close> are sequences of literal text, a character class under
  \<open>+\<close> or \<open>*\<close>, an optional character and an alternative of literals. A match assigns to
  every item of the sequence the text it consumed; a capture group is the text of the
  items it encloses. The candidates of an item are listed in the order in which Python's
  backtracking matcher tries them: longest first for the greedy \<open>+\<close>, \<open>*\<close> and \<open>?\<close>, left to
  right for \<open>|\<close>.
\<close>

datatype rx =
    RLit string
  | RPlus "char \<Rightarrow> bool"
  | RStar "char \<Rightarrow> bool"
  | ROpt char
  | RAlt "string list"

fun runs :: "(char \<Rightarrow> bool) \<Rightarrow> string \<Rightarrow> (string \<times> string) list" where
  "runs P [] = [([], [])]"
| "runs P (c # cs) =
     (if P c then map (\<lambda>(p, r). (c # p, r)) (runs P cs) @ [([], c # cs)]
      else [([], c # cs)])"

definition lit :: "string \<Rightarrow> string \<Rightarrow> (string \<times> string) list" where
  "lit l s = (if prefix l s then [(l, drop (length l) s)] else [])"

fun candidates :: "rx \<Rightarrow> string \<Rightarrow> (string \<times> string) list" where
  "candidates (RLit l) s = lit l s"
| "candidates (RPlus P) s = filter (\<lambda>(p, r). p \<noteq> []) (runs P s)"
| "candidates (RStar P) s = runs P s"
| "candidates (ROpt c) s = lit [c] s @ [([], s)]"
| "candidates (RAlt ls) s = concat (map (\<lambda>l. lit l s) ls)"

fun first_some :: "'a option list \<Rightarrow> 'a option" where
  "first_some [] = None"
| "first_some (None # xs) = first_some xs"
| "first_some (Some x # xs) = Some x"

fun match_here :: "rx list \<Rightarrow> string \<Rightarrow> string list option" where
  "match_here [] s = Some []"
| "match_here (r # rs) s =
     first_some (map (\<lambda>(p, rest). map_option ((#) p) (match_here rs rest)) (candidates r s))"

fun re_search :: "rx list \<Rightarrow> string \<Rightarrow> string list option" where
  \<comment> \<open>\<open>re.search\<close>: the match at the leftmost start position that has one\<close>
  "re_search p [] = match_here p []"
| "re_search p (c # cs) =
     (case match_here p (c # cs) of Some m \<Rightarrow> Some m | None \<Rightarrow> re_search p cs)"

definition seg :: "string list \<Rightarrow> nat \<Rightarrow> string" where
  \<comment> \<open>the text consumed by item \<open>i\<close> of the pattern\<close>
  "seg m i = concat (take 1 (drop i m))"

definition not_newline :: "char \<Rightarrow> bool" where
  \<comment> \<open>\<open>.\<close>\<close>
  "not_newline c = (c \<noteq> CHR 0x0A)"

definition not_colon :: "char \<Rightarrow> bool" where
  \<comment> \<open>\<open>[^:]\<close>\<close>
  "not_colon c = (c \<noteq> CHR '':'')"

definition not_space :: "char \<Rightarrow> bool" where
  \<comment> \<open>\<open>[^\s]\<close>\<close>
  "not_space c = (\<not> is_space c)"

text \<open>The patterns, in the order of the \<open>elif\<close> chain.\<close>

definition rx_playlist :: "rx list" where
  \<comment> \<open>\<open>Downloading playlist: (.+)\<close>\<close>
  "rx_playlist = [RLit ''Downloading playlist: '', RPlus not_newline]"

definition rx_item_count :: "rx list" where
  \<comment> \<open>\<open>Downloading (\d+) items? of (\d+)\<close>\<close>
  "rx_item_count =
     [RLit ''Downloading '', RPlus is_digit, RLit '' item'', ROpt CHR ''s'', RLit '' of '',
      RPlus is_digit]"

definition rx_item :: "rx list" where
  \<comment> \<open>\<open>Downloading item (\d+) of (\d+)\<close>\<close>
  "rx_item = [RLit ''Downloading item '', RPlus is_digit, RLit '' of '', RPlus is_digit]"

definition rx_track_url :: "rx list" where
  \<comment> \<open>\<open>\[youtube\] Extracting URL: https://[^\s]+\<close>\<close>
  "rx_track_url = [RLit ''[youtube] Extracting URL: https://'', RPlus not_space]"

definition rx_video_id :: "rx list" where
  \<comment> \<open>\<open>\[youtube\] ([^:]+): Downloading (?:webpage|ios player API JSON|android player API JSON)\<close>\<close>
  "rx_video_id =
     [RLit ''[youtube] '', RPlus not_colon, RLit '': Downloading '',
      RAlt [''webpage'', ''ios player API JSON'', ''android player API JSON'']]"

definition rx_destination :: "rx list" where
  \<comment> \<open>\<open>\[download\] Destination: (.+)\<close>\<close>
  "rx_destination = [RLit ''[download] Destination: '', RPlus not_newline]"

definition rx_percent :: "rx list" where
  \<comment> \<open>\<open>\[download\]\s+(\d+\.?\d*)%\<close>\<close>
  "rx_percent =
     [RLit ''[download]'', RPlus is_space, RPlus is_digit, ROpt CHR ''.'', RStar is_digit,
      RLit ''%'']"

definition rx_audio_destination :: "rx list" where
  \<comment> \<open>\<open>Destination: (.+)\<close>\<close>
  "rx_audio_destination = [RLit ''Destination: '', RPlus not_newline]"

subsection \<open>Paths, numbers in text\<close>

definition basename :: "string \<Rightarrow> string" where
  \<comment> \<open>\<open>os.path.basename\<close>: the text after the last slash\<close>
  "basename p = rev (takeWhile (\<lambda>c. c \<noteq> CHR ''/'') (rev p))"

definition splitext_root :: "string \<Rightarrow> string" where
  \<comment> \<open>\<open>os.path.splitext(p)[0]\<close>: the last dot of the last component starts the extension,
      unless only dots stand before it in that component\<close>
  "splitext_root p =
     (let name = basename p;
          ext = takeWhile (\<lambda>c. c \<noteq> CHR ''.'') (rev name);
          stem = take (length name - length ext - 1) name
      in if CHR ''.'' \<in> set name \<and> (\<exists>c \<in> set stem. c \<noteq> CHR ''.'')
         then take (length p - length ext - 1) p else p)"

fun after_first :: "string \<Rightarrow> string \<Rightarrow> string" where
  \<comment> \<open>\<open>line.split(sub, 1)[1]\<close> for a line that contains \<open>sub\<close>\<close>
  "after_first sub [] = []"
| "after_first sub (c # cs) =
     (if prefix sub (c # cs) then drop (length sub) (c # cs) else after_first sub cs)"

definition decimal_value :: "string \<Rightarrow> rat" where
  \<comment> \<open>the number written by a text of the form \<open>\d+\.?\d*\<close>\<close>
  "decimal_value t =
     (let ip = takeWhile is_digit t; fp = drop (length ip + 1) t
      in of_nat (int_of_digits ip) + of_nat (int_of_digits fp) / 10 ^ length fp)"

section \<open>Floating point: the operations on the download percentage\<close>

text \<open>
  A Python \<open>float\<close> is an IEEE 754 binary64 number: a finite value is kept as the rational
  it denotes (the sign of zero is not kept: no operation below observes it). Every
  operation, \<open>float(text)\<close> and the conversion of an \<open>int\<close> among them, rounds the exact
  result to the nearest double, ties to the even significand. An \<open>int\<close> that would round
  to infinity raises \<open>OverflowError\<close>, and so does \<open>int(x)\<close> of an infinite \<open>x\<close>.
\<close>

datatype pyfloat = Fin rat | PInf | NInf | NaN

datatype exn = OverflowError string | ValueError string

fun message :: "exn \<Rightarrow> string" where
  \<comment> \<open>\<open>str(e)\<close>\<close>
  "message (OverflowError m) = m"
| "message (ValueError m) = m"

definition pow2 :: "int \<Rightarrow> rat" where
  "pow2 e = (if 0 \<le> e then of_int (2 ^ nat e) else 1 / of_int (2 ^ nat (- e)))"

definition binade :: "rat \<Rightarrow> int" where
  \<comment> \<open>for \<open>0 < x\<close>, the \<open>e\<close> with \<open>2^e \<le> x < 2^(e+1)\<close>\<close>
  "binade x = (if 1 \<le> x then bitlen \<lfloor>x\<rfloor> - 1 else - bitlen (\<lceil>1 / x\<rceil> - 1))"

definition round_half_even :: "rat \<Rightarrow> int" where
  "round_half_even r =
     (let f = \<lfloor>r\<rfloor>; d = r - of_int f
      in if d < 1 / 2 then f else if 1 / 2 < d then f + 1 else if even f then f else f + 1)"

definition to_double :: "rat \<Rightarrow> pyfloat" where
  \<comment> \<open>53 significant bits, least exponent \<open>-1022\<close> (subnormals below), overflow from \<open>2^1024\<close>\<close>
  "to_double x =
     (if x = 0 then Fin 0
      else let a = \<bar>x\<bar>;
               e = max (binade a) (- 1022);
               q = pow2 (e - 52);
               v = of_int (round_half_even (a / q)) * q
           in if pow2 1024 \<le> v then (if 0 < x then PInf else NInf)
              else Fin (if 0 < x then v else - v))"

definition py_float :: "string \<Rightarrow> pyfloat" where
  \<comment> \<open>\<open>float(text)\<close> for a text of the form \<open>\d+\.?\d*\<close>\<close>
  "py_float t = to_double (decimal_value t)"

definition float_of_int :: "int \<Rightarrow> exn + pyfloat" where
  \<comment> \<open>the conversion of the \<open>int\<close> operand of \<open>int + float\<close>\<close>
  "float_of_int k =
     (case to_double (of_int k) of
        Fin v \<Rightarrow> Inr (Fin v)
      | _ \<Rightarrow> Inl (OverflowError ''int too large to convert to float''))"

fun float_div :: "pyfloat \<Rightarrow> rat \<Rightarrow> pyfloat" where
  \<comment> \<open>\<open>x / c\<close> for a finite \<open>c > 0\<close>\<close>
  "float_div (Fin v) c = to_double (v / c)"
| "float_div x c = x"

fun float_add :: "pyfloat \<Rightarrow> pyfloat \<Rightarrow> pyfloat" where
  "float_add (Fin a) (Fin b) = to_double (a + b)"
| "float_add (Fin a) PInf = PInf"
| "float_add (Fin a) NInf = NInf"
| "float_add (Fin a) NaN = NaN"
| "float_add PInf (Fin b) = PInf"
| "float_add PInf PInf = PInf"
| "float_add PInf NInf = NaN"
| "float_add PInf NaN = NaN"
| "float_add NInf (Fin b) = NInf"
| "float_add NInf PInf = NaN"
| "float_add NInf NInf = NInf"
| "float_add NInf NaN = NaN"
| "float_add NaN y = NaN"

definition trunc_zero :: "rat \<Rightarrow> int" where
  "trunc_zero v = (if 0 \<le> v then \<lfloor>v\<rfloor> else \<lceil>v\<rceil>)"

fun int_of_float :: "pyfloat \<Rightarrow> exn + int" where
  \<comment> \<open>\<open>int(x)\<close>: towards zero\<close>
  "int_of_float (Fin v) = Inr (trunc_zero v)"
| "int_of_float NaN = Inl (ValueError ''cannot convert float NaN to integer'')"
| "int_of_float x = Inl (OverflowError ''cannot convert float infinity to integer'')"

section \<open>The application state\<close>

text \<open>The pictographs of the labels, as their UTF-8 bytes.\<close>

definition g_cross :: string where
  \<comment> \<open>U+274C\<close>
  "g_cross = [CHR 0xE2, CHR 0x9D, CHR 0x8C]"

definition g_note :: string where
  \<comment> \<open>U+1F3B5\<close>
  "g_note = [CHR 0xF0, CHR 0x9F, CHR 0x8E, CHR 0xB5]"

definition g_page :: string where
  \<comment> \<open>U+1F4C4\<close>
  "g_page = [CHR 0xF0, CHR 0x9F, CHR 0x93, CHR 0x84]"



definition g_warn :: string where
  \<comment> \<open>U+26A0 U+FE0F\<close>
  "g_warn = [CHR 0xE2, CHR 0x9A, CHR 0xA0, CHR 0xEF, CHR 0xB8, CHR 0x8F]"

definition g_hourglass :: string where
  \<comment> \<open>U+23F3\<close>
  "g_hourglass = [CHR 0xE2, CHR 0x8F, CHR 0xB3]"

definition g_magnifier :: string where
  \<comment> \<open>U+1F50D\<close>
  "g_magnifier = [CHR 0xF0, CHR 0x9F, CHR 0x94, CHR 0x8D]"

definition g_redirect :: string where
  \<comment> \<open>U+21AA U+FE0F\<close>
  "g_redirect = [CHR 0xE2, CHR 0x86, CHR 0xAA, CHR 0xEF, CHR 0xB8, CHR 0x8F]"

definition g_inbox :: string where
  \<comment> \<open>U+1F4E5\<close>
  "g_inbox = [CHR 0xF0, CHR 0x9F, CHR 0x93, CHR 0xA5]"

definition g_clipboard :: string where
  \<comment> \<open>U+1F4CB\<close>
  "g_clipboard = [CHR 0xF0, CHR 0x9F, CHR 0x93, CHR 0x8B]"

definition g_down :: string where
  \<comment> \<open>U+2B07 U+FE0F\<close>
  "g_down = [CHR 0xE2, CHR 0xAC, CHR 0x87, CHR 0xEF, CHR 0xB8, CHR 0x8F]"

definition g_check :: string where
  \<comment> \<open>U+2713\<close>
  "g_check = [CHR 0xE2, CHR 0x9C, CHR 0x93]"

definition g_convert :: string where
  \<comment> \<open>U+1F504\<close>
  "g_convert = [CHR 0xF0, CHR 0x9F, CHR 0x94, CHR 0x84]"

definition g_picture :: string where
  \<comment> \<open>U+1F5BC U+FE0F\<close>
  "g_picture = [CHR 0xF0, CHR 0x9F, CHR 0x96, CHR 0xBC, CHR 0xEF, CHR 0xB8, CHR 0x8F]"

definition g_memo :: string where
  \<comment> \<open>U+1F4DD\<close>
  "g_memo = [CHR 0xF0, CHR 0x9F, CHR 0x93, CHR 0x9D]"

definition g_broom :: string where
  \<comment> \<open>U+1F9F9\<close>
  "g_broom = [CHR 0xF0, CHR 0x9F, CHR 0xA7, CHR 0xB9]"

definition g_done :: string where
  \<comment> \<open>U+2705\<close>
  "g_done = [CHR 0xE2, CHR 0x9C, CHR 0x85]"

text \<open>
  The fields of \<open>MusicDownloader\<close> and of its widgets that the download code reads or
  writes, with the local variables of \<open>run_download\<close>. \<open>bar_progress\<close> and \<open>bar_total\<close>
  hold the arguments of the last \<open>ProgressBar.update\<close>; \<open>signals\<close> lists the signals
  delivered to the child process; \<open>download_process\<close> names the \<open>Popen\<close> object by its
  process id.
\<close>

datatype signal = SIGSTOP | SIGCONT

record state =
  is_downloading :: bool
  is_paused :: bool
  download_process :: "nat option"
  signals :: "(nat \<times> signal) list"
  pause_btn_disabled :: bool
  pause_btn_label :: string
  download_btn_disabled :: bool
  current_action :: string
  playlist_info :: string
  current_file :: string
  bar_progress :: int
  bar_total :: int
  status :: string
  download_log :: "string list"
  playlist_name :: "string option"
  playlist_total :: int
  current_item :: int
  current_filename :: "string option"

definition update_current_action :: "string \<Rightarrow> state \<Rightarrow> state" where
  "update_current_action action s = s\<lparr>current_action := action\<rparr>"

definition update_playlist_info :: "string \<Rightarrow> state \<Rightarrow> state" where
  "update_playlist_info info s = s\<lparr>playlist_info := info\<rparr>"

definition update_current_file :: "string \<Rightarrow> state \<Rightarrow> state" where
  "update_current_file filename s =
     (if filename \<noteq> [] then s\<lparr>current_file := g_page @ '' '' @ filename\<rparr>
      else s\<lparr>current_file := []\<rparr>)"

definition update_progress :: "int \<Rightarrow> int \<Rightarrow> state \<Rightarrow> state" where
  "update_progress current tot s = s\<lparr>bar_progress := current, bar_total := tot\<rparr>"

definition update_status :: "string \<Rightarrow> state \<Rightarrow> state" where
  "update_status msg s = s\<lparr>status := msg\<rparr>"

definition log_message :: "string \<Rightarrow> state \<Rightarrow> state" where
  "log_message msg s = s\<lparr>download_log := download_log s @ [msg]\<rparr>"

definition mounted :: state where
  \<comment> \<open>after \<open>__init__\<close>, \<open>compose\<close> and \<open>on_mount\<close>\<close>
  "mounted =
     \<lparr>is_downloading = False, is_paused = False, download_process = None, signals = [],
      pause_btn_disabled = True, pause_btn_label = ''Pause'', download_btn_disabled = False,
      current_action = ''Ready'', playlist_info = [], current_file = [],
      bar_progress = 0, bar_total = 100, status = ''Ready to download'', download_log = [],
      playlist_name = None, playlist_total = 0, current_item = 0, current_filename = None\<rparr>"

section \<open>The status parser of \<open>run_download\<close>\<close>

text \<open>
  The loop body is an \<open>if\<close>/\<open>elif\<close> chain over the stripped line. \<open>classify\<close> is the chain
  of its conditions, with the values each branch reads from the line; \<open>reduce\<close> is the
  branch bodies.
\<close>

datatype event =
    ExtractingUrl
  | Redirect
  | FetchingPlaylistData
  | PlaylistFound string
  | PlaylistItemCount nat nat
  | ItemProgress nat nat
  | ExtractingTrackInfo
  | VideoId string
  | DestinationFile string
  | ItemPercent pyfloat
  | AlreadyDownloaded bool
  | ConvertingAudio "string option"
  | EmbeddingThumbnail
  | EmbeddingMetadata
  | Cleanup
  | Warning string
  | Error
  | Unrecognized

definition classify :: "string \<Rightarrow> event" where
  "classify line =
    (if contains ''Extracting URL:'' line then ExtractingUrl
     else if contains ''YouTube Music is not directly supported'' line then Redirect
     else if contains ''Downloading webpage'' line \<or> contains ''Downloading API JSON'' line
       then FetchingPlaylistData
     else case re_search rx_playlist line of
       Some m \<Rightarrow> PlaylistFound (seg m 1)
     | None \<Rightarrow>
     (case re_search rx_item_count line of
       Some m \<Rightarrow> PlaylistItemCount (int_of_digits (seg m 1)) (int_of_digits (seg m 5))
     | None \<Rightarrow>
     (case re_search rx_item line of
       Some m \<Rightarrow> ItemProgress (int_of_digits (seg m 1)) (int_of_digits (seg m 3))
     | None \<Rightarrow>
     (case re_search rx_track_url line of
       Some m \<Rightarrow> ExtractingTrackInfo
     | None \<Rightarrow>
     (case re_search rx_video_id line of
       Some m \<Rightarrow> VideoId (seg m 1)
     | None \<Rightarrow>
     (case re_search rx_destination line of
       Some m \<Rightarrow> DestinationFile (splitext_root (basename (seg m 1)))
     | None \<Rightarrow>
     (case re_search rx_percent line of
       Some m \<Rightarrow> ItemPercent (py_float (seg m 2 @ seg m 3 @ seg m 4))
     | None \<Rightarrow>
      if contains ''[download]'' line \<and> contains ''has already been downloaded'' line
        then AlreadyDownloaded (re_search [RLit ''has already been downloaded''] line \<noteq> None)
      else if contains ''[ExtractAudio]'' line
        then ConvertingAudio
          (if contains ''Destination:'' line
           then map_option (\<lambda>m. splitext_root (basename (seg m 1)))
                  (re_search rx_audio_destination line)
           else None)
      else if contains ''[EmbedThumbnail]'' line then EmbeddingThumbnail
      else if contains ''[Metadata]'' line \<or> contains ''Adding metadata'' line
        then EmbeddingMetadata
      else if contains ''Deleting original file'' line then Cleanup
      else if contains ''WARNING:'' line then Warning (strip (after_first ''WARNING:'' line))
      else if contains ''ERROR:'' line then Error
      else Unrecognized)))))))"

definition item_progress :: "int \<Rightarrow> pyfloat \<Rightarrow> exn + int" where
  \<comment> \<open>\<open>int((current_item - 1) + (percent / 100))\<close>\<close>
  "item_progress item percent =
     (case float_of_int (item - 1) of
        Inl e \<Rightarrow> Inl e
      | Inr k \<Rightarrow> int_of_float (float_add k (float_div percent 100)))"

fun reduce :: "state \<Rightarrow> event \<Rightarrow> exn + state" where
  "reduce s ExtractingUrl =
     Inr (update_current_file []
           (update_status (g_hourglass @ '' Extracting URL...'')
             (update_current_action (g_magnifier @ '' Extracting URL...'') s)))"
| "reduce s Redirect =
     Inr (update_current_action (g_redirect @ '' Redirecting to YouTube...'') s)"
| "reduce s FetchingPlaylistData =
     Inr (update_current_action (g_inbox @ '' Fetching playlist data...'') s)"
| "reduce s (PlaylistFound name) =
     Inr (update_status (g_clipboard @ '' Playlist: '' @ name)
           (update_current_action (g_clipboard @ '' Found playlist: '' @ name)
             (s\<lparr>playlist_name := Some name\<rparr>)))"
| "reduce s (PlaylistItemCount available tot) =
     (let info = ''Items: '' @ str_of_int (int available) @ '' available'';
          info = (if available < tot
                  then info @ '' ('' @ str_of_int (int tot - int available) @ '' unavailable)''
                  else info)
      in Inr (update_progress 0 (int available)
               (update_playlist_info info (s\<lparr>playlist_total := int available\<rparr>))))"
| "reduce s (ItemProgress item tot) =
     Inr (update_progress (int item - 1) (int tot)
           (update_status
              (g_hourglass @ '' Downloading '' @ str_of_int (int item) @ ''/'' @ str_of_int (int tot))
             (update_current_action
                (g_down @ '' Downloading track '' @ str_of_int (int item) @ '' of ''
                   @ str_of_int (int tot))
               (s\<lparr>current_item := int item, playlist_total := int tot\<rparr>))))"
| "reduce s ExtractingTrackInfo =
     Inr (update_current_action (g_note @ '' Extracting track info...'') s)"
| "reduce s (VideoId video_id) = Inr s"
| "reduce s (DestinationFile filename) =
     Inr (update_current_file filename (s\<lparr>current_filename := Some filename\<rparr>))"
| "reduce s (ItemPercent percent) =
     (if playlist_total s > 0
      then (case item_progress (current_item s) percent of
              Inl e \<Rightarrow> Inl e
            | Inr p \<Rightarrow> Inr (update_progress p (playlist_total s) s))
      else Inr s)"
| "reduce s (AlreadyDownloaded found) =
     (let s1 = update_current_action (g_check @ '' Track already downloaded (skipping)'') s
      in Inr (case current_filename s of
                Some f \<Rightarrow>
                  if found \<and> f \<noteq> [] then update_current_file (f @ '' (already downloaded)'') s1
                  else s1
              | None \<Rightarrow> s1))"
| "reduce s (ConvertingAudio dest) =
     (let s1 = update_current_action (g_convert @ '' Converting to audio format...'') s
      in Inr (case dest of Some filename \<Rightarrow> update_current_file filename s1 | None \<Rightarrow> s1))"
| "reduce s EmbeddingThumbnail =
     Inr (update_current_action (g_picture @ '' Embedding thumbnail...'') s)"
| "reduce s EmbeddingMetadata =
     Inr (update_current_action (g_memo @ '' Embedding metadata...'') s)"
| "reduce s Cleanup = Inr (update_current_action (g_broom @ '' Cleaning up...'') s)"
| "reduce s (Warning warning_msg) =
     Inr (if contains ''unavailable videos are hidden'' warning_msg
          then update_playlist_info (g_warn @ '' Some videos unavailable - '' @ warning_msg) s
          else s)"
| "reduce s Error =
     Inr (update_status (g_cross @ '' Error during download'')
           (update_current_action (g_cross @ '' Error occurred'') s))"
| "reduce s Unrecognized = Inr s"

definition process_line :: "string \<Rightarrow> state \<Rightarrow> exn \<times> state + state" where
  \<comment> \<open>one round of the loop over the child's output; a raise leaves the loop with the
      state as it is then\<close>
  "process_line raw s =
     (let line = strip raw
      in if line = [] then Inr s
         else let s1 = log_message line s
              in case reduce s1 (classify line) of Inl e \<Rightarrow> Inl (e, s1) | Inr s2 \<Rightarrow> Inr s2)"

fun read_lines :: "string list \<Rightarrow> state \<Rightarrow> exn \<times> state + state" where
  "read_lines [] s = Inr s"
| "read_lines (raw # rest) s =
     (case process_line raw s of Inl e \<Rightarrow> Inl e | Inr s1 \<Rightarrow> read_lines rest s1)"

section \<open>The life cycle of a download\<close>

definition reset_buttons :: "state \<Rightarrow> state" where
  "reset_buttons s =
     s\<lparr>is_downloading := False, is_paused := False, pause_btn_disabled := True,
       pause_btn_label := ''Pause'', download_btn_disabled := False\<rparr>"

definition on_exit :: "int \<Rightarrow> state \<Rightarrow> state" where
  \<comment> \<open>after \<open>wait()\<close>, by the return code\<close>
  "on_exit returncode s =
     (if returncode = 0
      then let s1 = update_current_file []
                      (update_status (g_done @ '' Download complete!'')
                        (update_current_action (g_done @ '' All downloads complete!'')
                          (reset_buttons s)));
               s2 = (if playlist_total s > 0
                     then update_playlist_info
                            (g_done @ '' Successfully downloaded '' @ str_of_int (playlist_total s)
                               @ '' tracks'')
                            (update_progress (playlist_total s) (playlist_total s) s1)
                     else s1)
           in log_message ''Download completed successfully!''
                (log_message (replicate 60 CHR ''='') s2)
      else log_message (''ERROR: Download failed with exit code '' @ str_of_int returncode)
             (update_current_file []
               (update_status (g_cross @ '' Failed (exit code: '' @ str_of_int returncode @ '')'')
                 (update_current_action (g_cross @ '' Download failed'') (reset_buttons s)))))"

definition on_not_found :: "state \<Rightarrow> state" where
  \<comment> \<open>\<open>except FileNotFoundError\<close>\<close>
  "on_not_found s =
     log_message ''  or: sudo pacman -S yt-dlp''
       (log_message ''  pip install yt-dlp''
         (log_message ''ERROR: yt-dlp not found. Please install it:''
           (update_current_file []
             (update_status (g_cross @ '' yt-dlp not found'')
               (update_current_action (g_cross @ '' yt-dlp not found'') (reset_buttons s))))))"

definition on_exception :: "string \<Rightarrow> state \<Rightarrow> state" where
  \<comment> \<open>\<open>except Exception as e\<close>, with \<open>str(e)\<close>\<close>
  "on_exception e s =
     log_message (''ERROR: '' @ e)
       (update_current_file []
         (update_status (g_cross @ '' Error: '' @ e)
           (update_current_action (g_cross @ '' Error: '' @ e) (reset_buttons s))))"

text \<open>
  What the operating system answers to \<open>Popen\<close>: the executable is missing, another
  failure with its text, or a child process, given by its process id, the lines it writes
  until it closes its output, and its return code.
\<close>

datatype spawn = NotFound | SpawnFailed string | Spawned nat "string list" int

definition run_download :: "spawn \<Rightarrow> state \<Rightarrow> state" where
  "run_download sp s0 =
     (let s = s0\<lparr>playlist_name := None, playlist_total := 0, current_item := 0,
                 current_filename := None\<rparr>
      in case sp of
           NotFound \<Rightarrow> on_not_found s
         | SpawnFailed e \<Rightarrow> on_exception e s
         | Spawned pid lines returncode \<Rightarrow>
             (case read_lines lines (s\<lparr>download_process := Some pid\<rparr>) of
                Inl (e, s1) \<Rightarrow> on_exception (message e) s1
              | Inr s1 \<Rightarrow> on_exit returncode s1))"


text \<open>
  \<open>action_download\<close>: the form is the values of the four input widgets; \<open>music_dir\<close> is
  \<open>str(Path.home() / "Music")\<close> and \<open>expanduser\<close> is \<open>os.path.expanduser\<close>. The result is
  the new state and, when a worker thread is started, the command it is started with.
\<close>

record form =
  url_input :: string
  output_dir :: string
  format_select :: string
  quality_input :: string

fun join_spaces :: "string list \<Rightarrow> string" where
  "join_spaces [] = []"
| "join_spaces [x] = x"
| "join_spaces (x # y # ys) = x @ '' '' @ join_spaces (y # ys)"

definition action_download ::
  "string \<Rightarrow> (string \<Rightarrow> string) \<Rightarrow> form \<Rightarrow> state \<Rightarrow> state \<times> string list option" where
  "action_download music_dir expanduser f s =
     (if is_downloading s
      then (log_message ''ERROR: A download is already in progress''
              (update_status (g_warn @ '' Download already in progress'') s), None)
      else let url = strip (url_input f);
               outp = strip (output_dir f);
               audio_format = format_select f;
               quality = strip (quality_input f)
           in if url = []
              then (log_message ''ERROR: Please enter a URL''
                      (update_status (g_cross @ '' Error: URL is required'') s), None)
              else let outp = expanduser (if outp = [] then music_dir else outp);
                       output_template =
                         outp @ ''/%(uploader)s/%(playlist)s/%(playlist_index)s - %(title)s.%(ext)s'';
                       command =
                         [''yt-dlp'', ''-x'', ''--audio-format'', audio_format, ''--audio-quality'',
                          quality, ''--embed-thumbnail'', ''--embed-metadata'', ''-o'',
                          output_template, url];
                       s1 = s\<lparr>is_downloading := True, is_paused := False,
                              pause_btn_disabled := False, pause_btn_label := ''Pause'',
                              download_btn_disabled := True\<rparr>
                   in (log_message (replicate 60 CHR ''-'')
                         (log_message (''Command: '' @ join_spaces command)
                           (log_message (''Format: '' @ audio_format @ '', Quality: '' @ quality)
                             (log_message (''Output directory: '' @ outp)
                               (log_message (''Starting download from: '' @ url)
                                 (update_status (g_hourglass @ '' Downloading...'') s1))))),
                       Some command))"

definition progress_after :: "string list \<Rightarrow> state \<Rightarrow> (int \<times> int) option" where
  \<comment> \<open>the progress and the playlist total once the lines are read, when no line raises\<close>
  "progress_after lines s =
     (case read_lines lines s of
        Inl e \<Rightarrow> None
      | Inr s1 \<Rightarrow> Some (bar_progress s1, playlist_total s1))"

section \<open>The classifier as a list of rules\<close>

text \<open>
  The conditions of the chain, one function for each: the event of the branch when the
  condition holds on the line.
\<close>

type_synonym rule = "string \<Rightarrow> event option"

definition rule_extracting_url :: rule where
  "rule_extracting_url line =
     (if contains ''Extracting URL:'' line then Some ExtractingUrl else None)"

definition rule_redirect :: rule where
  "rule_redirect line =
     (if contains ''YouTube Music is not directly supported'' line then Some Redirect else None)"

definition rule_fetching :: rule where
  "rule_fetching line =
     (if contains ''Downloading webpage'' line \<or> contains ''Downloading API JSON'' line
      then Some FetchingPlaylistData else None)"

definition rule_playlist_found :: rule where
  "rule_playlist_found line =
     map_option (\<lambda>m. PlaylistFound (seg m 1)) (re_search rx_playlist line)"

definition rule_item_count :: rule where
  "rule_item_count line =
     map_option (\<lambda>m. PlaylistItemCount (int_of_digits (seg m 1)) (int_of_digits (seg m 5)))
       (re_search rx_item_count line)"

definition rule_item_progress :: rule where
  "rule_item_progress line =
     map_option (\<lambda>m. ItemProgress (int_of_digits (seg m 1)) (int_of_digits (seg m 3)))
       (re_search rx_item line)"

definition rule_video_id :: rule where
  \<comment> \<open>the branch that only reads the video id\<close>
  "rule_video_id line = map_option (\<lambda>m. VideoId (seg m 1)) (re_search rx_video_id line)"

definition rule_destination :: rule where
  "rule_destination line =
     map_option (\<lambda>m. DestinationFile (splitext_root (basename (seg m 1))))
       (re_search rx_destination line)"

definition rule_percent :: rule where
  "rule_percent line =
     map_option (\<lambda>m. ItemPercent (py_float (seg m 2 @ seg m 3 @ seg m 4)))
       (re_search rx_percent line)"

definition rule_already_downloaded :: rule where
  "rule_already_downloaded line =
     (if contains ''[download]'' line \<and> contains ''has already been downloaded'' line
      then Some (AlreadyDownloaded True) else None)"

definition rule_converting_audio :: rule where
  "rule_converting_audio line =
     (if contains ''[ExtractAudio]'' line
      then Some (ConvertingAudio
             (if contains ''Destination:'' line
              then map_option (\<lambda>m. splitext_root (basename (seg m 1)))
                     (re_search rx_audio_destination line)
              else None))
      else None)"

definition rule_thumbnail :: rule where
  "rule_thumbnail line =
     (if contains ''[EmbedThumbnail]'' line then Some EmbeddingThumbnail else None)"

definition rule_metadata :: rule where
  "rule_metadata line =
     (if contains ''[Metadata]'' line \<or> contains ''Adding metadata'' line
      then Some EmbeddingMetadata else None)"

definition rule_cleanup :: rule where
  "rule_cleanup line = (if contains ''Deleting original file'' line then Some Cleanup else None)"

definition rule_warning :: rule where
  "rule_warning line =
     (if contains ''WARNING:'' line then Some (Warning (strip (after_first ''WARNING:'' line)))
      else None)"

definition rule_error :: rule where
  "rule_error line = (if contains ''ERROR:'' line then Some Error else None)"

definition first_match :: "rule list \<Rightarrow> string \<Rightarrow> event" where
  \<comment> \<open>the event of the first rule that matches, \<open>Unrecognized\<close> when none does\<close>
  "first_match rules line =
     (case first_some (map (\<lambda>r. r line) rules) of Some e \<Rightarrow> e | None \<Rightarrow> Unrecognized)"

definition spec_rules :: "rule list" where
  \<comment> \<open>the fifteen rules of section 4.1 of the specification, in its order\<close>
  "spec_rules =
     [rule_extracting_url, rule_redirect, rule_fetching, rule_playlist_found, rule_item_count,
      rule_item_progress, rule_destination, rule_percent, rule_already_downloaded,
      rule_converting_audio, rule_thumbnail, rule_metadata, rule_cleanup, rule_warning,
      rule_error]"

definition classify_spec :: "string \<Rightarrow> event" where
  \<comment> \<open>the classifier as section 4.1 of the specification words it\<close>
  "classify_spec line = first_match spec_rules line"

definition chain_rules :: "rule list" where
  \<comment> \<open>the same rules, with the video id rule where the chain has it, after rule 6\<close>
  "chain_rules =
     [rule_extracting_url, rule_redirect, rule_fetching, rule_playlist_found, rule_item_count,
      rule_item_progress, rule_video_id, rule_destination, rule_percent,
      rule_already_downloaded, rule_converting_audio, rule_thumbnail, rule_metadata,
      rule_cleanup, rule_warning, rule_error]"

definition classify_without_track_url :: "string \<Rightarrow> event" where
  \<comment> \<open>the chain of \<open>classify\<close> without its branch for \<open>rx_track_url\<close>\<close>
  "classify_without_track_url line =
    (if contains ''Extracting URL:'' line then ExtractingUrl
     else if contains ''YouTube Music is not directly supported'' line then Redirect
     else if contains ''Downloading webpage'' line \<or> contains ''Downloading API JSON'' line
       then FetchingPlaylistData
     else case re_search rx_playlist line of
       Some m \<Rightarrow> PlaylistFound (seg m 1)
     | None \<Rightarrow>
     (case re_search rx_item_count line of
       Some m \<Rightarrow> PlaylistItemCount (int_of_digits (seg m 1)) (int_of_digits (seg m 5))
     | None \<Rightarrow>
     (case re_search rx_item line of
       Some m \<Rightarrow> ItemProgress (int_of_digits (seg m 1)) (int_of_digits (seg m 3))
     | None \<Rightarrow>
     (case re_search rx_video_id line of
       Some m \<Rightarrow> VideoId (seg m 1)
     | None \<Rightarrow>
     (case re_search rx_destination line of
       Some m \<Rightarrow> DestinationFile (splitext_root (basename (seg m 1)))
     | None \<Rightarrow>
     (case re_search rx_percent line of
       Some m \<Rightarrow> ItemPercent (py_float (seg m 2 @ seg m 3 @ seg m 4))
     | None \<Rightarrow>
      if contains ''[download]'' line \<and> contains ''has already been downloaded'' line
        then AlreadyDownloaded (re_search [RLit ''has already been downloaded''] line \<noteq> None)
      else if contains ''[ExtractAudio]'' line
        then ConvertingAudio
          (if contains ''Destination:'' line
           then map_option (\<lambda>m. splitext_root (basename (seg m 1)))
                  (re_search rx_audio_destination line)
           else None)
      else if contains ''[EmbedThumbnail]'' line then EmbeddingThumbnail
      else if contains ''[Metadata]'' line \<or> contains ''Adding metadata'' line
        then EmbeddingMetadata
      else if contains ''Deleting original file'' line then Cleanup
      else if contains ''WARNING:'' line then Warning (strip (after_first ''WARNING:'' line))
      else if contains ''ERROR:'' line then Error
      else Unrecognized))))))"

definition nonneg_float :: "pyfloat \<Rightarrow> bool" where
  \<comment> \<open>zero or above, or positive infinity\<close>
  "nonneg_float x = (case x of Fin v \<Rightarrow> 0 \<le> v | PInf \<Rightarrow> True | _ \<Rightarrow> False)"

fun last_item_index :: "int \<Rightarrow> string list \<Rightarrow> int" where
  \<comment> \<open>the index of the most recent item line among the lines read, \<open>start\<close> when there is
      none: the \<open>lastItemIndex\<close> of the specification\<close>
  "last_item_index start [] = start"
| "last_item_index start (raw # rest) =
     last_item_index
       (if strip raw = [] then start
        else case classify (strip raw) of ItemProgress i t \<Rightarrow> int i | _ \<Rightarrow> start)
       rest"

section \<open>Properties\<close>

subsection \<open>Helper facts\<close>

lemma str_of_int_8: "str_of_int 8 = ''8''"
  by code_simp

lemma str_of_int_2: "str_of_int 2 = ''2''"
  by code_simp

lemma str_of_int_1: "str_of_int 1 = ''1''"
  by code_simp

lemma process_line_step:
  "strip raw = line \<Longrightarrow> line \<noteq> [] \<Longrightarrow> classify line = ev \<Longrightarrow>
   reduce (log_message line s) ev = Inr s2 \<Longrightarrow> process_line raw s = Inr s2"
  by (simp add: process_line_def Let_def)

lemma strip_item_1_of_2:
  "strip ''[download] Downloading item 1 of 2'' = ''[download] Downloading item 1 of 2''"
  by code_simp

lemma classify_item_1_of_2:
  "classify ''[download] Downloading item 1 of 2'' = ItemProgress 1 2"
  by code_simp

lemma read_item_1_of_2:
  "read_lines [''[download] Downloading item 1 of 2'']
     (mounted\<lparr>playlist_name := None, playlist_total := 0, current_item := 0,
        current_filename := None, download_process := Some 7\<rparr>) =
   Inr (mounted\<lparr>download_process := Some 7,
          download_log := [''[download] Downloading item 1 of 2''],
          current_item := 1, playlist_total := 2,
          current_action := g_down @ '' Downloading track 1 of 2'',
          status := g_hourglass @ '' Downloading 1/2'', bar_progress := 0, bar_total := 2\<rparr>)"
  by (simp add: process_line_step [OF strip_item_1_of_2 _ classify_item_1_of_2] mounted_def
      log_message_def update_progress_def update_status_def update_current_action_def
      str_of_int_1 str_of_int_2)

lemma match_here_lit_prefix: "match_here (RLit l # rs) s = Some m \<Longrightarrow> prefix l s"
  by (cases "prefix l s") (simp_all add: lit_def)

lemma re_search_lit_sublist: "re_search (RLit l # rs) s = Some m \<Longrightarrow> sublist l s"
proof (induction s)
  case Nil
  then show ?case using match_here_lit_prefix by fastforce
next
  case (Cons c cs)
  show ?case
  proof (cases "match_here (RLit l # rs) (c # cs)")
    case None
    with Cons show ?thesis by (simp add: sublist_Cons_right)
  next
    case (Some a)
    then have "prefix l (c # cs)" by (rule match_here_lit_prefix)
    then show ?thesis by (simp add: sublist_Cons_right)
  qed
qed

subsection \<open>Rounding stays at or above \<open>-1\<close> and \<open>0\<close>\<close>

lemma round_half_even_le: "r \<le> of_int n \<Longrightarrow> round_half_even r \<le> n"
proof -
  assume le: "r \<le> of_int n"
  have f: "\<lfloor>r\<rfloor> \<le> n"
    using le by (simp add: floor_le_iff)
  show ?thesis
  proof (cases "r = of_int \<lfloor>r\<rfloor>")
    case True
    then have "r - of_int \<lfloor>r\<rfloor> = 0" by simp
    then show ?thesis using f by (simp add: round_half_even_def Let_def)
  next
    case False
    then have "of_int \<lfloor>r\<rfloor> < r"
      using of_int_floor_le [of r] by linarith
    then have "of_int \<lfloor>r\<rfloor> < (of_int n :: rat)"
      using le by linarith
    then have "\<lfloor>r\<rfloor> < n" by simp
    then show ?thesis by (simp add: round_half_even_def Let_def)
  qed
qed

lemma round_half_even_ge: "of_int n \<le> r \<Longrightarrow> n \<le> round_half_even r"
proof -
  assume "of_int n \<le> r"
  then have "n \<le> \<lfloor>r\<rfloor>" by (simp add: le_floor_iff)
  then show ?thesis by (simp add: round_half_even_def Let_def)
qed

lemma pow2_pos: "0 < pow2 e"
  by (simp add: pow2_def)

lemma binade_le_0: "0 < a \<Longrightarrow> a \<le> 1 \<Longrightarrow> binade a \<le> 0"
proof -
  assume "0 < a" "a \<le> 1"
  show ?thesis
  proof (cases "1 \<le> a")
    case True
    with \<open>a \<le> 1\<close> have "a = 1" by simp
    moreover have "bitlen 1 = 1" by code_simp
    ultimately show ?thesis by (simp add: binade_def)
  next
    case False
    then show ?thesis by (simp add: binade_def bitlen_nonneg)
  qed
qed

lemma to_double_nonneg:
  "0 \<le> x \<Longrightarrow> to_double x = PInf \<or> (\<exists>v. to_double x = Fin v \<and> 0 \<le> v)"
proof (cases "x = 0")
  case True
  then show ?thesis by (simp add: to_double_def)
next
  case False
  assume "0 \<le> x"
  with False have pos: "0 < x" by simp
  define q where "q = pow2 (max (binade \<bar>x\<bar>) (- 1022) - 52)"
  have "0 \<le> \<bar>x\<bar> / q"
    using pow2_pos [of "max (binade \<bar>x\<bar>) (- 1022) - 52"] by (simp add: q_def)
  then have "0 \<le> round_half_even (\<bar>x\<bar> / q)"
    using round_half_even_ge [of 0 "\<bar>x\<bar> / q"] by simp
  then have "0 \<le> of_int (round_half_even (\<bar>x\<bar> / q)) * q"
    using pow2_pos [of "max (binade \<bar>x\<bar>) (- 1022) - 52"] by (simp add: q_def)
  then show ?thesis
    using pos False by (simp add: to_double_def Let_def q_def)
qed

lemma to_double_small_neg:
  assumes "- 1 \<le> x" "x < 0"
  shows "\<exists>v. to_double x = Fin v \<and> - 1 \<le> v"
proof -
  define e where "e = max (binade \<bar>x\<bar>) (- 1022)"
  define k where "k = nat (52 - e)"
  define q where "q = pow2 (e - 52)"
  have a: "0 < \<bar>x\<bar>" "\<bar>x\<bar> \<le> 1"
    using assms by simp_all
  have "e \<le> 0"
    using binade_le_0 [OF a] by (simp add: e_def)
  then have q: "q = 1 / of_int (2 ^ k)"
    by (simp add: q_def pow2_def k_def)
  have "\<bar>x\<bar> / q = \<bar>x\<bar> * of_int (2 ^ k)"
    by (simp add: q)
  also have "\<dots> \<le> of_int (2 ^ k)"
    using a by (simp add: mult_left_le_one_le)
  finally have "round_half_even (\<bar>x\<bar> / q) \<le> 2 ^ k"
    by (rule round_half_even_le)
  then have "(of_int (round_half_even (\<bar>x\<bar> / q)) :: rat) \<le> of_int (2 ^ k)"
    by (simp only: of_int_le_iff)
  then have v: "of_int (round_half_even (\<bar>x\<bar> / q)) * q \<le> 1"
    by (simp add: q pos_divide_le_eq)
  have "(1 :: rat) < pow2 1024"
    by (simp add: pow2_def)
  with v have "\<not> pow2 1024 \<le> of_int (round_half_even (\<bar>x\<bar> / q)) * q"
    by linarith
  then show ?thesis
    using assms v by (simp add: to_double_def Let_def q_def e_def)
qed

lemma to_double_ge_m1:
  "- 1 \<le> x \<Longrightarrow> to_double x = PInf \<or> (\<exists>v. to_double x = Fin v \<and> - 1 \<le> v)"
proof (cases "0 \<le> x")
  case True
  then show ?thesis
    using to_double_nonneg [of x] by force
next
  case False
  assume "- 1 \<le> x"
  with False show ?thesis
    using to_double_small_neg [of x] by simp
qed

lemma trunc_zero_ge_m1: "- 1 \<le> v \<Longrightarrow> - 1 \<le> trunc_zero v"
  by (simp add: trunc_zero_def le_floor_iff le_ceiling_iff)

lemma nonneg_float_py_float: "nonneg_float (py_float t)"
proof -
  have "0 \<le> decimal_value t"
    by (simp add: decimal_value_def Let_def)
  then show ?thesis
    using to_double_nonneg [of "decimal_value t"] by (auto simp: py_float_def nonneg_float_def)
qed

lemma float_div_100_nonneg: "nonneg_float x \<Longrightarrow> nonneg_float (float_div x 100)"
proof (cases x)
  case (Fin v)
  assume "nonneg_float x"
  with Fin have "0 \<le> v / 100" by (simp add: nonneg_float_def)
  then show ?thesis
    using Fin to_double_nonneg [of "v / 100"] by (auto simp: nonneg_float_def)
qed (simp_all add: nonneg_float_def)

lemma item_progress_ge_m1:
  assumes "0 \<le> item" "nonneg_float percent" "item_progress item percent = Inr p"
  shows "- 1 \<le> p"
proof -
  have "(- 1 :: rat) \<le> of_int (item - 1)"
    using assms(1) by simp
  then consider "to_double (of_int (item - 1)) = PInf"
    | kv where "to_double (of_int (item - 1)) = Fin kv" "- 1 \<le> kv"
    using to_double_ge_m1 [of "of_int (item - 1)"] by blast
  then show ?thesis
  proof cases
    case 1
    with assms(3) show ?thesis
      by (simp add: item_progress_def float_of_int_def)
  next
    case 2
    have y: "nonneg_float (float_div percent 100)"
      using assms(2) by (rule float_div_100_nonneg)
    show ?thesis
    proof (cases "float_div percent 100")
      case (Fin yv)
      with y have "0 \<le> yv" by (simp add: nonneg_float_def)
      with 2 have "- 1 \<le> kv + yv" by simp
      then consider "to_double (kv + yv) = PInf"
        | v where "to_double (kv + yv) = Fin v" "- 1 \<le> v"
        using to_double_ge_m1 [of "kv + yv"] by blast
      then show ?thesis
      proof cases
        case 1
        with assms(3) 2 Fin show ?thesis
          by (simp add: item_progress_def float_of_int_def)
      next
        case 2
        with assms(3) \<open>to_double (of_int (item - 1)) = Fin kv\<close> Fin show ?thesis
          using trunc_zero_ge_m1 [of v] by (auto simp: item_progress_def float_of_int_def)
      qed
    next
      case PInf
      with assms(3) 2 show ?thesis
        by (simp add: item_progress_def float_of_int_def)
    next
      case NInf
      with y show ?thesis by (simp add: nonneg_float_def)
    next
      case NaN
      with y show ?thesis by (simp add: nonneg_float_def)
    qed
  qed
qed

subsection \<open>Rounding between two integers\<close>

lemma pow2_nonpos: "e \<le> 0 \<Longrightarrow> pow2 e = 1 / 2 ^ nat (- e)"
  by (cases "e = 0") (simp_all add: pow2_def)

lemma pow2_nonneg: "0 \<le> e \<Longrightarrow> pow2 e = 2 ^ nat e"
  by (simp add: pow2_def)

lemma two_power_le_of_int: "2 ^ k \<le> (n :: int) \<Longrightarrow> (2 :: rat) ^ k \<le> of_int n"
  using of_int_le_iff [of "2 ^ k" n, where ?'a = rat] by simp

lemma of_int_le_two_power: "(n :: int) \<le> 2 ^ k \<Longrightarrow> (of_int n :: rat) \<le> 2 ^ k"
  using of_int_le_iff [of n "2 ^ k", where ?'a = rat] by simp

lemma binade_bounds:
  assumes "0 < x"
  shows "pow2 (binade x) \<le> x \<and> x < pow2 (binade x + 1)"
proof (cases "1 \<le> x")
  case True
  define n where "n = \<lfloor>x\<rfloor>"
  have n: "1 \<le> n" "of_int n \<le> x" "x < of_int (n + 1)"
    using True floor_correct [of x] by (simp_all add: n_def le_floor_iff)
  have b: "2 ^ nat (bitlen n - 1) \<le> n" "n < 2 ^ nat (bitlen n)"
    using bitlen_bounds [of n] n(1) by simp_all
  have "1 \<le> bitlen n"
  proof (rule ccontr)
    assume "\<not> 1 \<le> bitlen n"
    then have "nat (bitlen n) = 0" by simp
    with b(2) n(1) show False by simp
  qed
  then have e: "binade x = bitlen n - 1" "0 \<le> bitlen n - 1" "0 \<le> bitlen n"
    using True by (simp_all add: binade_def n_def)
  have p1: "pow2 (binade x) = 2 ^ nat (bitlen n - 1)"
    using e by (simp add: pow2_nonneg)
  have p2: "pow2 (binade x + 1) = 2 ^ nat (bitlen n)"
    using e by (simp add: pow2_nonneg)
  have "(2 :: rat) ^ nat (bitlen n - 1) \<le> of_int n"
    using b(1) by (rule two_power_le_of_int)
  with n(2) have lo: "pow2 (binade x) \<le> x"
    unfolding p1 by linarith
  have "n + 1 \<le> 2 ^ nat (bitlen n)"
    using b(2) by simp
  then have "(of_int (n + 1) :: rat) \<le> 2 ^ nat (bitlen n)"
    by (rule of_int_le_two_power)
  with n(3) have "x < pow2 (binade x + 1)"
    unfolding p2 by linarith
  with lo show ?thesis ..
next
  case False
  define m where "m = \<lceil>1 / x\<rceil>"
  define b where "b = bitlen (m - 1)"
  have y: "1 < 1 / x"
    using assms False by simp
  have m2: "1 / x \<le> of_int m"
    by (simp add: m_def)
  have m3: "of_int (m - 1) < 1 / x"
    using ceiling_correct [of "1 / x"] by (simp add: m_def)
  have "(1 :: rat) < of_int m"
    using y m2 by linarith
  then have m1: "2 \<le> m"
    by simp
  have bb: "2 ^ nat (b - 1) \<le> m - 1" "m - 1 < 2 ^ nat b"
    using bitlen_bounds [of "m - 1"] m1 by (simp_all add: b_def)
  have b1: "1 \<le> b"
  proof (rule ccontr)
    assume "\<not> 1 \<le> b"
    then have "nat b = 0" by simp
    with bb(2) m1 show False by simp
  qed
  have e: "binade x = - b"
    using False by (simp add: binade_def m_def b_def)
  have p1: "pow2 (binade x) = 1 / 2 ^ nat b"
    using b1 pow2_nonpos [of "- b"] by (simp add: e)
  have p2: "pow2 (binade x + 1) = 1 / 2 ^ nat (b - 1)"
    using b1 pow2_nonpos [of "1 - b"] by (simp add: e)
  have "m \<le> 2 ^ nat b"
    using bb(2) by simp
  then have "(of_int m :: rat) \<le> 2 ^ nat b"
    by (rule of_int_le_two_power)
  with m2 have "1 / x \<le> 2 ^ nat b"
    by linarith
  then have "1 \<le> 2 ^ nat b * x"
    using assms by (simp add: pos_divide_le_eq)
  then have lo: "pow2 (binade x) \<le> x"
    unfolding p1 by (simp add: pos_divide_le_eq mult.commute)
  have "(2 :: rat) ^ nat (b - 1) \<le> of_int (m - 1)"
    using bb(1) by (rule two_power_le_of_int)
  then have "2 ^ nat (b - 1) < 1 / x"
    using m3 by linarith
  then have "2 ^ nat (b - 1) * x < 1"
    using assms by (simp add: pos_less_divide_eq)
  then have "x < pow2 (binade x + 1)"
    unfolding p2 by (simp add: pos_less_divide_eq mult.commute)
  with lo show ?thesis ..
qed

lemma binade_le_52:
  assumes "0 < x" "x < 2 ^ 53"
  shows "binade x \<le> 52"
proof (rule ccontr)
  assume "\<not> binade x \<le> 52"
  then have e: "53 \<le> binade x" by simp
  then have "(2 :: rat) ^ 53 \<le> 2 ^ nat (binade x)"
    by (intro power_increasing) simp_all
  also have "\<dots> = pow2 (binade x)"
    using e by (simp add: pow2_nonneg)
  also have "\<dots> \<le> x"
    using binade_bounds [OF assms(1)] by simp
  finally show False
    using assms(2) by simp
qed

lemma to_double_between:
  assumes "of_int lo \<le> x" "x \<le> of_int hi" "0 \<le> lo" "hi < 2 ^ 53"
  shows "\<exists>v. to_double x = Fin v \<and> of_int lo \<le> v \<and> v \<le> of_int hi"
proof (cases "x = 0")
  case True
  with assms(1,2) show ?thesis
    by (simp add: to_double_def)
next
  case False
  have pos: "0 < x"
  proof -
    have "(0 :: rat) \<le> of_int lo"
      using assms(3) by simp
    with assms(1) have "0 \<le> x"
      by linarith
    with False show ?thesis
      by simp
  qed
  define e where "e = max (binade x) (- 1022)"
  define k where "k = nat (52 - e)"
  define q where "q = pow2 (e - 52)"
  define r where "r = round_half_even (x / q)"
  have "(of_int hi :: rat) < 2 ^ 53"
    using assms(4) by (metis of_int_less_iff of_int_numeral of_int_power)
  then have "x < 2 ^ 53"
    using assms(2) by simp
  then have "e \<le> 52"
    using binade_le_52 [OF pos] by (simp add: e_def)
  then have q: "q = 1 / 2 ^ k"
    using pow2_nonpos [of "e - 52"] by (simp add: q_def k_def)
  have xq: "x / q = x * 2 ^ k"
    by (simp add: q)
  have "of_int (lo * 2 ^ k) \<le> x / q"
    using assms(1) by (simp add: xq)
  then have rlo: "lo * 2 ^ k \<le> r"
    unfolding r_def by (rule round_half_even_ge)
  have "x / q \<le> of_int (hi * 2 ^ k)"
    using assms(2) by (simp add: xq)
  then have rhi: "r \<le> hi * 2 ^ k"
    unfolding r_def by (rule round_half_even_le)
  have "(of_int (lo * 2 ^ k) :: rat) \<le> of_int r"
    using rlo by (simp only: of_int_le_iff)
  then have vlo: "of_int lo \<le> of_int r * q"
    by (simp add: q pos_le_divide_eq)
  have "(of_int r :: rat) \<le> of_int (hi * 2 ^ k)"
    using rhi by (simp only: of_int_le_iff)
  then have vhi: "of_int r * q \<le> of_int hi"
    by (simp add: q pos_divide_le_eq)
  have "(2 :: rat) ^ 53 \<le> pow2 1024"
    by (simp add: pow2_def)
  with vhi \<open>(of_int hi :: rat) < 2 ^ 53\<close> have "\<not> pow2 1024 \<le> of_int r * q"
    by linarith
  then have "to_double x = Fin (of_int r * q)"
    using pos False by (simp add: to_double_def Let_def r_def q_def e_def)
  with vlo vhi show ?thesis
    by simp
qed

lemma to_double_of_int: "\<bar>n\<bar> < 2 ^ 53 \<Longrightarrow> 0 \<le> n \<Longrightarrow> to_double (of_int n) = Fin (of_int n)"
  using to_double_between [of n "of_int n" n] by auto

lemma item_progress_between:
  assumes "1 \<le> item" "item < 2 ^ 53" "0 \<le> pv" "pv \<le> 100"
  shows "\<exists>p. item_progress item (Fin pv) = Inr p \<and> item - 1 \<le> p \<and> p \<le> item"
proof -
  have k: "to_double (of_int (item - 1)) = Fin (of_int (item - 1))"
    using assms(1,2) by (intro to_double_of_int) simp_all
  have "of_int 0 \<le> pv / 100" "pv / 100 \<le> of_int 1"
    using assms(3,4) by simp_all
  then obtain yv where y: "to_double (pv / 100) = Fin yv" "0 \<le> yv" "yv \<le> 1"
    using to_double_between [of 0 "pv / 100" 1] by auto
  have "of_int (item - 1) \<le> of_int (item - 1) + yv" "of_int (item - 1) + yv \<le> of_int item"
    using y(2,3) by simp_all
  then obtain v where v: "to_double (of_int (item - 1) + yv) = Fin v"
      "of_int (item - 1) \<le> v" "v \<le> of_int item"
    using to_double_between [of "item - 1" "of_int (item - 1) + yv" item] assms(1,2) by auto
  have "(0 :: rat) \<le> of_int (item - 1)"
    using assms(1) by simp
  with v(2) have "0 \<le> v"
    by linarith
  then have "trunc_zero v = \<lfloor>v\<rfloor>"
    by (simp add: trunc_zero_def)
  moreover have "item - 1 \<le> \<lfloor>v\<rfloor>" "\<lfloor>v\<rfloor> \<le> item"
    using v(2,3) by (simp_all add: le_floor_iff floor_le_iff)
  ultimately show ?thesis
    using k y(1) v(1) by (simp add: item_progress_def float_of_int_def)
qed

subsection \<open>Overflow\<close>

lemma to_double_overflow:
  assumes "2 ^ 1024 \<le> x"
  shows "to_double x = PInf"
proof -
  have pos: "0 < x"
    using assms by (rule less_le_trans [rotated]) simp
  define e where "e = binade x"
  have b: "pow2 e \<le> x" "x < pow2 (e + 1)"
    using binade_bounds [OF pos] by (simp_all add: e_def)
  have e: "1024 \<le> e"
  proof (rule ccontr)
    assume "\<not> 1024 \<le> e"
    then have le: "e + 1 \<le> 1024" by simp
    have "pow2 (e + 1) \<le> 2 ^ 1024"
    proof (cases "0 \<le> e + 1")
      case True
      then have "pow2 (e + 1) = 2 ^ nat (e + 1)"
        by (rule pow2_nonneg)
      also have "\<dots> \<le> (2 :: rat) ^ 1024"
        using le True by (intro power_increasing) simp_all
      finally show ?thesis .
    next
      case False
      then have "pow2 (e + 1) = 1 / 2 ^ nat (- (e + 1))"
        by (intro pow2_nonpos) simp
      also have "\<dots> \<le> 1"
        by simp
      also have "\<dots> \<le> (2 :: rat) ^ 1024"
        by simp
      finally show ?thesis .
    qed
    with b(2) assms show False
      by linarith
  qed
  define q where "q = pow2 (e - 52)"
  have q: "q = 2 ^ nat (e - 52)" "0 < q"
    using e pow2_nonneg [of "e - 52"] by (simp_all add: q_def)
  have "nat e = nat (e - 52) + 52"
    using e by simp
  then have pe: "pow2 e = q * 2 ^ 52"
    using e pow2_nonneg [of e] by (simp add: q(1) power_add)
  have "of_int (2 ^ 52) \<le> x / q"
    using b(1) q(2) by (simp add: pe pos_le_divide_eq mult.commute)
  then have "2 ^ 52 \<le> round_half_even (x / q)"
    by (rule round_half_even_ge)
  then have "(2 :: rat) ^ 52 \<le> of_int (round_half_even (x / q))"
    by (rule two_power_le_of_int)
  then have "2 ^ 52 * q \<le> of_int (round_half_even (x / q)) * q"
    using q(2) by simp
  then have "pow2 e \<le> of_int (round_half_even (x / q)) * q"
    by (simp add: pe mult.commute)
  moreover have "pow2 1024 \<le> pow2 e"
  proof -
    have p1: "pow2 1024 = 2 ^ nat 1024"
      by (rule pow2_nonneg) simp
    have p2: "pow2 e = 2 ^ nat e"
      using e by (intro pow2_nonneg) simp
    have "nat 1024 \<le> nat e"
      using e by simp
    then have "(2 :: rat) ^ nat 1024 \<le> 2 ^ nat e"
      by (rule power_increasing) simp
    then show ?thesis
      by (simp only: p1 p2)
  qed
  ultimately have "pow2 1024 \<le> of_int (round_half_even (x / q)) * q"
    by linarith
  then show ?thesis
    using pos e by (simp add: to_double_def Let_def q_def e_def)
qed

lemma float_of_int_overflow:
  "2 ^ 1024 \<le> k \<Longrightarrow> float_of_int k = Inl (OverflowError ''int too large to convert to float'')"
proof -
  assume "2 ^ 1024 \<le> k"
  then have "(2 :: rat) ^ 1024 \<le> of_int k"
    by (rule two_power_le_of_int)
  then show ?thesis
    by (simp add: float_of_int_def to_double_overflow)
qed

lemma decimal_value_digits:
  "\<forall>c \<in> set ds. is_digit c \<Longrightarrow> decimal_value ds = of_nat (int_of_digits ds)"
proof -
  assume "\<forall>c \<in> set ds. is_digit c"
  then have tw: "takeWhile is_digit ds = ds"
    by simp
  show ?thesis
    unfolding decimal_value_def Let_def tw
    by (simp add: int_of_digits_def)
qed

lemma py_float_overflow:
  assumes "\<forall>c \<in> set ds. is_digit c" "2 ^ 1024 \<le> int_of_digits ds"
  shows "py_float ds = PInf"
proof -
  have "(2 :: rat) ^ 1024 \<le> of_int (int (int_of_digits ds))"
    using assms(2) by (intro two_power_le_of_int) (metis of_nat_le_iff of_nat_numeral of_nat_power)
  then have "(2 :: rat) ^ 1024 \<le> of_nat (int_of_digits ds)"
    by simp
  then show ?thesis
    using assms(1) by (simp add: py_float_def decimal_value_digits to_double_overflow)
qed

lemma int_of_digits_snoc:
  "int_of_digits (ds @ [c]) = 10 * int_of_digits ds + (of_char c - 48)"
  by (simp add: int_of_digits_def)

lemma int_of_digits_nines: "int_of_digits (replicate n CHR ''9'') + 1 = 10 ^ n"
proof (induction n)
  case 0
  then show ?case by (simp add: int_of_digits_def)
next
  case (Suc n)
  have "replicate (Suc n) CHR ''9'' = replicate n CHR ''9'' @ [CHR ''9'']"
    by (simp add: replicate_append_same)
  then have "int_of_digits (replicate (Suc n) CHR ''9'') = 10 * int_of_digits (replicate n CHR ''9'') + 9"
    by (simp only: int_of_digits_snoc) simp
  with Suc show ?case
    by simp
qed

lemma nines_310_large: "2 ^ 1024 \<le> int_of_digits (replicate 310 CHR ''9'')"
proof -
  have "(2 :: nat) ^ 1024 + 1 \<le> 10 ^ 310"
    by simp
  then show ?thesis
    using int_of_digits_nines [of 310] by linarith
qed

subsection \<open>A percentage line of digits\<close>

lemma runs_longest:
  "\<forall>c \<in> set ds. P c \<Longrightarrow> rest = [] \<or> \<not> P (hd rest) \<Longrightarrow>
   \<exists>others. runs P (ds @ rest) = (ds, rest) # others"
proof (induction ds)
  case Nil
  then show ?case by (cases rest) auto
next
  case (Cons d ds)
  then obtain others where "runs P (ds @ rest) = (ds, rest) # others"
    by auto
  with Cons.prems(1) show ?case
    by simp
qed

lemma match_here_plus_longest:
  assumes "ds \<noteq> []" "\<forall>c \<in> set ds. P c" "rest = [] \<or> \<not> P (hd rest)"
    and "match_here rs rest = Some m"
  shows "match_here (RPlus P # rs) (ds @ rest) = Some (ds # m)"
proof -
  obtain others where "runs P (ds @ rest) = (ds, rest) # others"
    using runs_longest [OF assms(2,3)] by blast
  with assms(1,4) show ?thesis
    by simp
qed

lemma match_here_lit_append:
  "match_here rs s = Some m \<Longrightarrow> match_here (RLit l # rs) (l @ s) = Some (l # m)"
  by (simp add: lit_def)

lemma re_search_first: "s \<noteq> [] \<Longrightarrow> match_here p s = Some m \<Longrightarrow> re_search p s = Some m"
  by (cases s) simp_all

lemma strip_id:
  assumes "line \<noteq> []" "\<not> is_space (hd line)" "\<not> is_space (last line)"
  shows "strip line = line"
proof -
  have "dropWhile is_space line = line"
    using assms(1,2) by (cases line) simp_all
  moreover have "dropWhile is_space (rev line) = rev line"
    using assms(1,3) by (cases "rev line") (simp_all add: last_rev [symmetric] hd_rev)
  ultimately show ?thesis
    by (simp add: strip_def)
qed

lemma no_char_no_contains: "c \<in> set sub \<Longrightarrow> c \<notin> set line \<Longrightarrow> \<not> contains sub line"
  using set_mono_sublist [of sub line] by (auto simp: contains_def)

lemma no_char_no_search:
  "c \<in> set l \<Longrightarrow> c \<notin> set line \<Longrightarrow> re_search (RLit l # rs) line = None"
  using re_search_lit_sublist [of l rs line] set_mono_sublist [of l line]
  by (cases "re_search (RLit l # rs) line") auto

lemma digit_not_space: "is_digit c \<Longrightarrow> \<not> is_space c"
  by (auto simp: is_digit_def is_space_def)

lemma percent_tail: "match_here [ROpt CHR ''.'', RStar is_digit, RLit ''%''] ''%'' = Some [[], [], ''%'']"
  by code_simp

lemma search_percent_digits:
  assumes "ds \<noteq> []" "\<forall>c \<in> set ds. is_digit c"
  shows "re_search rx_percent (''[download] '' @ ds @ ''%'')
    = Some [''[download]'', '' '', ds, [], [], ''%'']"
proof -
  have d: "''%'' = [] \<or> \<not> is_digit (hd ''%'')"
    by (simp add: is_digit_def)
  have t1: "match_here [RPlus is_digit, ROpt CHR ''.'', RStar is_digit, RLit ''%''] (ds @ ''%'')
      = Some [ds, [], [], ''%'']"
    by (rule match_here_plus_longest [OF assms d percent_tail])
  have s1: "'' '' \<noteq> []" "\<forall>c \<in> set '' ''. is_space c"
    by (simp_all add: is_space_def)
  have s2: "ds @ ''%'' = [] \<or> \<not> is_space (hd (ds @ ''%''))"
    using assms by (cases ds) (simp_all add: digit_not_space)
  have t2: "match_here
      [RPlus is_space, RPlus is_digit, ROpt CHR ''.'', RStar is_digit, RLit ''%'']
      ('' '' @ (ds @ ''%'')) = Some ['' '', ds, [], [], ''%'']"
    by (rule match_here_plus_longest [OF s1 s2 t1])
  have t3: "match_here rx_percent (''[download]'' @ ('' '' @ (ds @ ''%'')))
      = Some [''[download]'', '' '', ds, [], [], ''%'']"
    unfolding rx_percent_def using t2 by (rule match_here_lit_append)
  have "''[download]'' @ ('' '' @ (ds @ ''%'')) = ''[download] '' @ ds @ ''%''"
    by simp
  with t3 have "match_here rx_percent (''[download] '' @ ds @ ''%'')
      = Some [''[download]'', '' '', ds, [], [], ''%'']"
    by (simp only:)
  moreover have "''[download] '' @ ds @ ''%'' \<noteq> []"
    by simp
  ultimately show ?thesis
    by (rule re_search_first [rotated])
qed

lemma classify_percent_digits:
  assumes "ds \<noteq> []" "\<forall>c \<in> set ds. is_digit c"
  shows "classify (''[download] '' @ ds @ ''%'') = ItemPercent (py_float ds)"
proof -
  let ?l = "''[download] '' @ ds @ ''%''"
  have nd: "\<not> is_digit CHR ''E''" "\<not> is_digit CHR ''Y''" "\<not> is_digit CHR ''D''"
      "\<not> is_digit CHR ''y''"
    by (simp_all add: is_digit_def)
  have out: "CHR ''E'' \<notin> set ?l" "CHR ''Y'' \<notin> set ?l" "CHR ''D'' \<notin> set ?l" "CHR ''y'' \<notin> set ?l"
    using assms(2) nd by auto
  have c1: "\<not> contains ''Extracting URL:'' ?l"
    by (rule no_char_no_contains [OF _ out(1)]) simp
  have c2: "\<not> contains ''YouTube Music is not directly supported'' ?l"
    by (rule no_char_no_contains [OF _ out(2)]) simp
  have c3: "\<not> contains ''Downloading webpage'' ?l"
    by (rule no_char_no_contains [OF _ out(3)]) simp
  have c4: "\<not> contains ''Downloading API JSON'' ?l"
    by (rule no_char_no_contains [OF _ out(3)]) simp
  have r1: "re_search rx_playlist ?l = None"
    unfolding rx_playlist_def by (rule no_char_no_search [OF _ out(3)]) simp
  have r2: "re_search rx_item_count ?l = None"
    unfolding rx_item_count_def by (rule no_char_no_search [OF _ out(3)]) simp
  have r3: "re_search rx_item ?l = None"
    unfolding rx_item_def by (rule no_char_no_search [OF _ out(3)]) simp
  have r4: "re_search rx_track_url ?l = None"
    unfolding rx_track_url_def by (rule no_char_no_search [OF _ out(4)]) simp
  have r5: "re_search rx_video_id ?l = None"
    unfolding rx_video_id_def by (rule no_char_no_search [OF _ out(4)]) simp
  have r6: "re_search rx_destination ?l = None"
    unfolding rx_destination_def by (rule no_char_no_search [OF _ out(3)]) simp
  have p: "re_search rx_percent ?l = Some [''[download]'', '' '', ds, [], [], ''%'']"
    using assms by (rule search_percent_digits)
  have "seg [''[download]'', '' '', ds, [], [], ''%''] 2
      @ seg [''[download]'', '' '', ds, [], [], ''%''] 3
      @ seg [''[download]'', '' '', ds, [], [], ''%''] 4 = ds"
    by (simp add: seg_def)
  then show ?thesis
    unfolding classify_def
    by (simp only: c1 c2 c3 c4 r1 r2 r3 r4 r5 r6 p if_False option.case simp_thms)
qed

subsection \<open>A line that raises\<close>

lemma item_progress_infinite:
  assumes "1 \<le> item" "item < 2 ^ 53"
  shows "item_progress item PInf
    = Inl (OverflowError ''cannot convert float infinity to integer'')"
proof -
  have "to_double (of_int (item - 1)) = Fin (of_int (item - 1))"
    using assms by (intro to_double_of_int) simp_all
  then show ?thesis
    by (simp add: item_progress_def float_of_int_def)
qed

lemma item_progress_too_large:
  "2 ^ 1024 \<le> item - 1 \<Longrightarrow>
   item_progress item percent = Inl (OverflowError ''int too large to convert to float'')"
  by (simp add: item_progress_def float_of_int_overflow)

lemma process_line_percent_overflow:
  assumes "ds \<noteq> []" "\<forall>c \<in> set ds. is_digit c" "2 ^ 1024 \<le> int_of_digits ds"
    and "0 < playlist_total s" "1 \<le> current_item s" "current_item s < 2 ^ 53"
  shows "process_line (''[download] '' @ ds @ ''%'') s
    = Inl (OverflowError ''cannot convert float infinity to integer'',
           log_message (''[download] '' @ ds @ ''%'') s)"
proof -
  let ?l = "''[download] '' @ ds @ ''%''"
  have "\<not> is_space CHR ''[''" "\<not> is_space CHR ''%''"
    by (simp_all add: is_space_def)
  then have st: "strip ?l = ?l"
    by (intro strip_id) simp_all
  have "classify ?l = ItemPercent (py_float ds)"
    by (rule classify_percent_digits [OF assms(1,2)])
  then have cl: "classify ?l = ItemPercent PInf"
    by (simp only: py_float_overflow [OF assms(2,3)])
  have "reduce (log_message ?l s) (ItemPercent PInf)
      = Inl (OverflowError ''cannot convert float infinity to integer'')"
    using assms(4) item_progress_infinite [OF assms(5,6)] by (simp add: log_message_def)
  then show ?thesis
    unfolding process_line_def Let_def st cl by simp
qed

lemma read_lines_raise: "process_line raw s = Inl x \<Longrightarrow> read_lines (raw # rest) s = Inl x"
  by simp

lemma read_lines_step:
  "process_line raw s = Inr s1 \<Longrightarrow> read_lines (raw # rest) s = read_lines rest s1"
  by simp

lemma process_item_1_of_2:
  "process_line ''[download] Downloading item 1 of 2''
     (mounted\<lparr>playlist_name := None, playlist_total := 0, current_item := 0,
        current_filename := None, download_process := Some 7\<rparr>) =
   Inr (mounted\<lparr>download_process := Some 7,
          download_log := [''[download] Downloading item 1 of 2''],
          current_item := 1, playlist_total := 2,
          current_action := g_down @ '' Downloading track 1 of 2'',
          status := g_hourglass @ '' Downloading 1/2'', bar_progress := 0, bar_total := 2\<rparr>)"
  by (simp add: process_line_step [OF strip_item_1_of_2 _ classify_item_1_of_2] mounted_def
      log_message_def update_progress_def update_status_def update_current_action_def
      str_of_int_1 str_of_int_2)

lemma nines_310_digits: "replicate 310 CHR ''9'' \<noteq> [] \<and> (\<forall>c \<in> set (replicate 310 CHR ''9''). is_digit c)"
  by (simp add: is_digit_def)

lemma read_item_then_overflow:
  "read_lines
     [''[download] Downloading item 1 of 2'', ''[download] '' @ replicate 310 CHR ''9'' @ ''%'']
     (mounted\<lparr>playlist_name := None, playlist_total := 0, current_item := 0,
        current_filename := None, download_process := Some 7\<rparr>) =
   Inl (OverflowError ''cannot convert float infinity to integer'',
        log_message (''[download] '' @ replicate 310 CHR ''9'' @ ''%'')
          (mounted\<lparr>download_process := Some 7,
             download_log := [''[download] Downloading item 1 of 2''],
             current_item := 1, playlist_total := 2,
             current_action := g_down @ '' Downloading track 1 of 2'',
             status := g_hourglass @ '' Downloading 1/2'', bar_progress := 0, bar_total := 2\<rparr>))"
proof -
  let ?s1 = "mounted\<lparr>download_process := Some 7,
             download_log := [''[download] Downloading item 1 of 2''],
             current_item := 1, playlist_total := 2,
             current_action := g_down @ '' Downloading track 1 of 2'',
             status := g_hourglass @ '' Downloading 1/2'', bar_progress := 0, bar_total := 2\<rparr>"
  have f: "0 < playlist_total ?s1" "1 \<le> current_item ?s1" "current_item ?s1 < 2 ^ 53"
    by simp_all
  have "process_line (''[download] '' @ replicate 310 CHR ''9'' @ ''%'') ?s1
      = Inl (OverflowError ''cannot convert float infinity to integer'',
             log_message (''[download] '' @ replicate 310 CHR ''9'' @ ''%'') ?s1)"
    using nines_310_digits nines_310_large f
    by (intro process_line_percent_overflow) blast+
  then have "read_lines [''[download] '' @ replicate 310 CHR ''9'' @ ''%''] ?s1
      = Inl (OverflowError ''cannot convert float infinity to integer'',
             log_message (''[download] '' @ replicate 310 CHR ''9'' @ ''%'') ?s1)"
    by (rule read_lines_raise)
  then show ?thesis
    by (simp only: read_lines_step [OF process_item_1_of_2])
qed

lemma reduce_current_item:
  "reduce s ev = Inr s' \<Longrightarrow>
   current_item s' = (case ev of ItemProgress i t \<Rightarrow> int i | _ \<Rightarrow> current_item s)"
  by (cases ev)
    (auto simp: update_current_action_def update_current_file_def update_status_def
      update_playlist_info_def update_progress_def Let_def
      split: if_splits option.splits sum.splits)

lemma read_lines_current_item:
  "read_lines lines s = Inr s' \<Longrightarrow> current_item s' = last_item_index (current_item s) lines"
proof (induction lines arbitrary: s)
  case Nil
  then show ?case by simp
next
  case (Cons raw rest)
  show ?case
  proof (cases "process_line raw s")
    case (Inl x)
    with Cons.prems show ?thesis by simp
  next
    case (Inr s1)
    have "current_item s1 =
        (if strip raw = [] then current_item s
         else case classify (strip raw) of ItemProgress i t \<Rightarrow> int i | _ \<Rightarrow> current_item s)"
    proof (cases "strip raw = []")
      case True
      with Inr show ?thesis by (simp add: process_line_def)
    next
      case False
      with Inr have "reduce (log_message (strip raw) s) (classify (strip raw)) = Inr s1"
        by (simp add: process_line_def Let_def split: sum.splits)
      then have "current_item s1 =
          (case classify (strip raw) of ItemProgress i t \<Rightarrow> int i
           | _ \<Rightarrow> current_item (log_message (strip raw) s))"
        by (rule reduce_current_item)
      with False show ?thesis by (simp add: log_message_def split: event.splits)
    qed
    moreover have "read_lines rest s1 = Inr s'"
      using Cons.prems Inr by simp
    ultimately show ?thesis
      using Cons.IH [of s1] by simp
  qed
qed

lemma run_download_spawned:
  "run_download (Spawned pid lines returncode) s0 =
     (case read_lines lines
        (s0\<lparr>playlist_name := None, playlist_total := 0, current_item := 0,
            current_filename := None, download_process := Some pid\<rparr>) of
        Inl (e, s1) \<Rightarrow> on_exception (message e) s1
      | Inr s1 \<Rightarrow> on_exit returncode s1)"
  by (simp add: run_download_def Let_def)

lemma run_item_then_overflow:
  "run_download (Spawned 7
       [''[download] Downloading item 1 of 2'',
        ''[download] '' @ replicate 310 CHR ''9'' @ ''%''] rc) mounted
   = on_exception ''cannot convert float infinity to integer''
       (log_message (''[download] '' @ replicate 310 CHR ''9'' @ ''%'')
          (mounted\<lparr>download_process := Some 7,
             download_log := [''[download] Downloading item 1 of 2''],
             current_item := 1, playlist_total := 2,
             current_action := g_down @ '' Downloading track 1 of 2'',
             status := g_hourglass @ '' Downloading 1/2'', bar_progress := 0, bar_total := 2\<rparr>))"
  by (simp only: run_download_spawned read_item_then_overflow sum.case prod.case message.simps)

subsection \<open>The playlist item count\<close>

text \<open>
  Claim C6. The branch for \<open>Downloading N item(s) of M\<close> sets the playlist information to
  \<open>Items: N available\<close>, followed by \<open> (M-N unavailable)\<close> exactly when \<open>N < M\<close>, sets the
  total of the progress to \<open>N\<close> and the current progress to 0. With \<open>N = 8\<close> and \<open>M = 10\<close>
  the information is \<open>Items: 8 available (2 unavailable)\<close>, the total 8, the progress 0.
\<close>

theorem reduce_PlaylistItemCount:
  "reduce s (PlaylistItemCount available tot) =
     Inr (s\<lparr>playlist_total := int available,
            playlist_info :=
              ''Items: '' @ str_of_int (int available) @ '' available'' @
              (if available < tot
               then '' ('' @ str_of_int (int tot - int available) @ '' unavailable)'' else []),
            bar_progress := 0, bar_total := int available\<rparr>)
   \<and> reduce s (PlaylistItemCount 8 10) =
     Inr (s\<lparr>playlist_total := 8, playlist_info := ''Items: 8 available (2 unavailable)'',
            bar_progress := 0, bar_total := 8\<rparr>)"
  by (simp add: update_progress_def update_playlist_info_def Let_def str_of_int_8 str_of_int_2)

subsection \<open>The percentage before any count\<close>

text \<open>
  Claim C5. While the playlist total is 0 (no \<open>Downloading item\<close> or \<open>Downloading N items\<close>
  line has set it), the branch for a download percentage changes nothing: the progress
  counters, and every other field, stay as they are.
\<close>

theorem reduce_ItemPercent_unknown_total:
  "playlist_total s = 0 \<Longrightarrow> reduce s (ItemPercent percent) = Inr s"
  by simp

theorem reduce_ItemPercent_unknown_total_witness:
  "playlist_total mounted = 0 \<and> reduce mounted (ItemPercent (Fin 50)) = Inr mounted"
  using reduce_ItemPercent_unknown_total [of mounted "Fin 50"] by (simp add: mounted_def)

subsection \<open>Starting while a download runs\<close>

text \<open>
  Claim C8. \<open>action_download\<close>, called while a download is in progress (paused or not),
  returns normally: it shows the warning in the status bar and logs it, starts no worker
  thread (so spawns no child process), sends no signal, and leaves every other field as it
  is, the flags, the process handle, the buttons and the progress among them.
\<close>

theorem action_download_while_running:
  "is_downloading s \<Longrightarrow>
   action_download music_dir expanduser f s =
     (s\<lparr>status := g_warn @ '' Download already in progress'',
        download_log := download_log s @ [''ERROR: A download is already in progress'']\<rparr>,
      None)"
  by (simp add: action_download_def update_status_def log_message_def)

theorem action_download_while_running_witness:
  "is_downloading (mounted\<lparr>is_downloading := True, is_paused := True\<rparr>) \<and>
   action_download ''/home/u/Music'' id
       \<lparr>url_input = ''https://music.youtube.com/x'', output_dir = [], format_select = ''mp3'',
        quality_input = ''0''\<rparr>
       (mounted\<lparr>is_downloading := True, is_paused := True\<rparr>) =
     (mounted\<lparr>is_downloading := True, is_paused := True,
        status := g_warn @ '' Download already in progress'',
        download_log := [''ERROR: A download is already in progress'']\<rparr>,
      None)"
  using action_download_while_running
    [of "mounted\<lparr>is_downloading := True, is_paused := True\<rparr>" "''/home/u/Music''" id
        "\<lparr>url_input = ''https://music.youtube.com/x'', output_dir = [], format_select = ''mp3'',
          quality_input = ''0''\<rparr>"]
  by (simp add: mounted_def)

subsection \<open>The end of the child process\<close>

lemma contains_middle: "contains x (a @ x @ b)"
  by (simp add: contains_def sublist_appendI)

text \<open>
  Claim C7, as stated, fails. The child can exit with code 0 and the download still end
  in the error state: a percentage of 310 digits is infinite as a \<open>float\<close>, \<open>int\<close> of it
  raises \<open>OverflowError\<close> in the loop, the handler for exceptions runs and the code after
  \<open>wait()\<close> does not. The status is then the error message and the progress stays at 0 of
  2; it is not set to the total.
\<close>

theorem run_download_raise_counterexample:
  "status (run_download (Spawned 7
       [''[download] Downloading item 1 of 2'',
        ''[download] '' @ replicate 310 CHR ''9'' @ ''%''] 0) mounted)
     = g_cross @ '' Error: cannot convert float infinity to integer''
   \<and> bar_progress (run_download (Spawned 7
       [''[download] Downloading item 1 of 2'',
        ''[download] '' @ replicate 310 CHR ''9'' @ ''%''] 0) mounted) = 0
   \<and> playlist_total (run_download (Spawned 7
       [''[download] Downloading item 1 of 2'',
        ''[download] '' @ replicate 310 CHR ''9'' @ ''%''] 0) mounted) = 2"
  unfolding run_item_then_overflow
  by (simp add: on_exception_def reset_buttons_def update_status_def update_current_action_def
      update_current_file_def log_message_def mounted_def)

text \<open>
  Claim C7, amended. When the output of the child has been read to its end and no line
  has raised, the download is over once the child has returned: \<open>is_downloading\<close> and
  \<open>is_paused\<close> are false, the download button is enabled and the pause button disabled.
  With return code 0 the status is the completion message and, when the playlist total is
  positive, the progress is set to that total; with another return code the status is the
  failure message, which contains the return code. When a line raises, the return code is
  not looked at: the flags and buttons are reset in the same way, the status and the
  action are \<open>Error:\<close> with the text of the exception, and the progress and the totals
  stay as they were when the line raised.
\<close>

theorem run_download_child_exit:
  "(read_lines lines
      (s0\<lparr>playlist_name := None, playlist_total := 0, current_item := 0,
          current_filename := None, download_process := Some pid\<rparr>) = Inr s1
    \<and> s' = run_download (Spawned pid lines returncode) s0 \<longrightarrow>
      \<not> is_downloading s' \<and> \<not> is_paused s' \<and> \<not> download_btn_disabled s'
    \<and> pause_btn_disabled s'
    \<and> (returncode = 0 \<longrightarrow>
          status s' = g_done @ '' Download complete!''
        \<and> current_action s' = g_done @ '' All downloads complete!''
        \<and> playlist_total s' = playlist_total s1
        \<and> (0 < playlist_total s1 \<longrightarrow>
              bar_progress s' = playlist_total s1 \<and> bar_total s' = playlist_total s1))
    \<and> (returncode \<noteq> 0 \<longrightarrow>
          status s' = g_cross @ '' Failed (exit code: '' @ str_of_int returncode @ '')''
        \<and> contains (str_of_int returncode) (status s')))
   \<and> (read_lines lines
      (s0\<lparr>playlist_name := None, playlist_total := 0, current_item := 0,
          current_filename := None, download_process := Some pid\<rparr>) = Inl (e, s1)
    \<and> s' = run_download (Spawned pid lines returncode) s0 \<longrightarrow>
      \<not> is_downloading s' \<and> \<not> is_paused s' \<and> \<not> download_btn_disabled s'
    \<and> pause_btn_disabled s'
    \<and> status s' = g_cross @ '' Error: '' @ message e
    \<and> current_action s' = g_cross @ '' Error: '' @ message e
    \<and> bar_progress s' = bar_progress s1 \<and> bar_total s' = bar_total s1
    \<and> playlist_total s' = playlist_total s1)"
proof (rule conjI; rule impI)
  assume "read_lines lines
      (s0\<lparr>playlist_name := None, playlist_total := 0, current_item := 0,
          current_filename := None, download_process := Some pid\<rparr>) = Inr s1
    \<and> s' = run_download (Spawned pid lines returncode) s0"
  then show "\<not> is_downloading s' \<and> \<not> is_paused s' \<and> \<not> download_btn_disabled s'
    \<and> pause_btn_disabled s'
    \<and> (returncode = 0 \<longrightarrow>
          status s' = g_done @ '' Download complete!''
        \<and> current_action s' = g_done @ '' All downloads complete!''
        \<and> playlist_total s' = playlist_total s1
        \<and> (0 < playlist_total s1 \<longrightarrow>
              bar_progress s' = playlist_total s1 \<and> bar_total s' = playlist_total s1))
    \<and> (returncode \<noteq> 0 \<longrightarrow>
          status s' = g_cross @ '' Failed (exit code: '' @ str_of_int returncode @ '')''
        \<and> contains (str_of_int returncode) (status s'))"
    using contains_middle [of "str_of_int returncode" "g_cross @ '' Failed (exit code: ''" "'')''"]
    by (simp add: run_download_def on_exit_def Let_def reset_buttons_def update_status_def
        update_current_action_def update_current_file_def update_progress_def
        update_playlist_info_def log_message_def)
next
  assume "read_lines lines
      (s0\<lparr>playlist_name := None, playlist_total := 0, current_item := 0,
          current_filename := None, download_process := Some pid\<rparr>) = Inl (e, s1)
    \<and> s' = run_download (Spawned pid lines returncode) s0"
  then show "\<not> is_downloading s' \<and> \<not> is_paused s' \<and> \<not> download_btn_disabled s'
    \<and> pause_btn_disabled s'
    \<and> status s' = g_cross @ '' Error: '' @ message e
    \<and> current_action s' = g_cross @ '' Error: '' @ message e
    \<and> bar_progress s' = bar_progress s1 \<and> bar_total s' = bar_total s1
    \<and> playlist_total s' = playlist_total s1"
    by (simp add: run_download_def on_exception_def Let_def reset_buttons_def update_status_def
        update_current_action_def update_current_file_def log_message_def)
qed

theorem run_download_child_exit_witness:
  "bar_progress (run_download (Spawned 7 [''[download] Downloading item 1 of 2''] 0) mounted) = 2
   \<and> status (run_download (Spawned 7 [''[download] Downloading item 1 of 2''] 1) mounted) =
       g_cross @ '' Failed (exit code: 1)''
   \<and> \<not> is_downloading (run_download (Spawned 7 [''[download] Downloading item 1 of 2''] 1) mounted)
   \<and> \<not> is_downloading (run_download (Spawned 7
         [''[download] Downloading item 1 of 2'',
          ''[download] '' @ replicate 310 CHR ''9'' @ ''%''] 0) mounted)
   \<and> current_action (run_download (Spawned 7
         [''[download] Downloading item 1 of 2'',
          ''[download] '' @ replicate 310 CHR ''9'' @ ''%''] 0) mounted)
       = g_cross @ '' Error: cannot convert float infinity to integer''"
proof -
  note ok0 = run_download_child_exit
    [where lines = "[''[download] Downloading item 1 of 2'']" and ?s0.0 = mounted and pid = 7
      and returncode = 0, THEN conjunct1, rule_format,
      OF conjI, OF read_item_1_of_2 refl]
  note ok1 = run_download_child_exit
    [where lines = "[''[download] Downloading item 1 of 2'']" and ?s0.0 = mounted and pid = 7
      and returncode = 1, THEN conjunct1, rule_format,
      OF conjI, OF read_item_1_of_2 refl]
  note bad = run_download_child_exit
    [where lines = "[''[download] Downloading item 1 of 2'',
          ''[download] '' @ replicate 310 CHR ''9'' @ ''%'']" and ?s0.0 = mounted and pid = 7
      and returncode = 0,
      THEN conjunct2, rule_format, OF conjI, OF read_item_then_overflow refl]
  have a: "bar_progress (run_download (Spawned 7 [''[download] Downloading item 1 of 2''] 0) mounted) = 2"
    using ok0 by simp
  have b: "status (run_download (Spawned 7 [''[download] Downloading item 1 of 2''] 1) mounted) =
       g_cross @ '' Failed (exit code: 1)''"
      "\<not> is_downloading (run_download (Spawned 7 [''[download] Downloading item 1 of 2''] 1) mounted)"
    using ok1 by (simp_all add: str_of_int_1)
  have c: "\<not> is_downloading (run_download (Spawned 7
         [''[download] Downloading item 1 of 2'',
          ''[download] '' @ replicate 310 CHR ''9'' @ ''%''] 0) mounted)"
      "current_action (run_download (Spawned 7
         [''[download] Downloading item 1 of 2'',
          ''[download] '' @ replicate 310 CHR ''9'' @ ''%''] 0) mounted)
       = g_cross @ '' Error: cannot convert float infinity to integer''"
    using bad by simp_all
  from a b c show ?thesis
    by (intro conjI)
qed

subsection \<open>A missing executable\<close>


subsection \<open>Pause and resume\<close>




subsection \<open>The percentage once the total is known\<close>

lemma to_double_2: "to_double 2 = Fin 2"
  by code_simp

lemma to_double_half: "to_double (50 / 100) = Fin (50 / 100)"
  by code_simp

lemma to_double_5_2: "to_double (2 + 50 / 100) = Fin (2 + 50 / 100)"
  by code_simp

lemma trunc_zero_5_2: "trunc_zero (2 + 50 / 100) = 2"
  by code_simp

text \<open>
  Claim C2, as stated, fails. After \<open>Downloading 2 items of 2\<close> no item line has been
  seen; the claim takes the item index to be 1 and so gives, for \<open>100%\<close>, the progress
  \<open>floor((1 - 1) + 100/100) = 1\<close>. The code starts \<open>current_item\<close> at 0 and computes
  \<open>int((0 - 1) + 1.0) = 0\<close>. For \<open>50.0%\<close> it computes \<open>int(-0.5) = 0\<close>, where the floor
  is \<open>-1\<close>: \<open>int\<close> rounds towards zero.
\<close>

theorem item_percent_counterexample:
  "progress_after
     [''[youtube:tab] Playlist Test: Downloading 2 items of 2'', ''[download] 100% of 3.45MiB'']
     mounted = Some (0, 2)
   \<and> \<lfloor>(1 - 1) + 100 / 100 :: rat\<rfloor> = 1
   \<and> progress_after
     [''[youtube:tab] Playlist Test: Downloading 2 items of 2'', ''[download]  50.0% of 3.45MiB'']
     mounted = Some (0, 2)
   \<and> \<lfloor>(0 - 1) + 50 / 100 :: rat\<rfloor> = - 1"
proof -
  have "progress_after
     [''[youtube:tab] Playlist Test: Downloading 2 items of 2'', ''[download] 100% of 3.45MiB'']
     mounted = Some (0, 2)"
    by code_simp
  moreover have "progress_after
     [''[youtube:tab] Playlist Test: Downloading 2 items of 2'', ''[download]  50.0% of 3.45MiB'']
     mounted = Some (0, 2)"
    by code_simp
  moreover have "\<lfloor>(1 - 1) + 100 / 100 :: rat\<rfloor> = 1"
    by simp
  moreover have "\<lfloor>(0 - 1) + 50 / 100 :: rat\<rfloor> = - 1"
    by code_simp
  ultimately show ?thesis
    by blast
qed

text \<open>
  Claim C2, amended. While the playlist total is positive, the branch for a download
  percentage sets the progress to \<open>int((current_item - 1) + percent / 100)\<close>, computed in
  double precision and rounded towards zero, and the total of the bar to the playlist
  total. When no operation rounds, the progress is the exact
  \<open>(current_item - 1) + percent / 100\<close> rounded towards zero. For an index from 1 to below
  \<open>2^53\<close> and a percentage from 0 to 100 the progress is the index less one, or the
  index. The lines \<open>Downloading item 3 of 10\<close>, \<open>50.0%\<close> end with progress 2 and total
  10.

  \<open>current_item\<close> is the index of the last \<open>Downloading item\<close> line, and 0 before the
  first: \<open>run_download\<close> sets it to 0 before it starts the child and before it reads a
  line, a \<open>Downloading item\<close> line sets it to its index, and no other line changes it, so
  that after any lines read without a raise it is \<open>last_item_index\<close> of them.

  When the number cannot be computed the exception leaves the loop: the lines after it
  are not read, and \<open>run_download\<close> goes to its handler with the state as it was when the
  line was logged. That happens when the index less one is at least \<open>2^1024\<close>
  (\<open>int too large to convert to float\<close>) and when the percentage is infinite, which a
  percentage of digits whose value is at least \<open>2^1024\<close> is
  (\<open>cannot convert float infinity to integer\<close>).
\<close>

theorem reduce_ItemPercent_known_total:
  "(0 < playlist_total s \<longrightarrow>
      reduce s (ItemPercent percent) =
        (case item_progress (current_item s) percent of
           Inl e \<Rightarrow> Inl e
         | Inr p \<Rightarrow> Inr (s\<lparr>bar_progress := p, bar_total := playlist_total s\<rparr>)))
   \<and> (to_double (of_int (item - 1)) = Fin (of_int (item - 1))
        \<and> to_double (v / 100) = Fin (v / 100)
        \<and> to_double (of_int (item - 1) + v / 100) = Fin (of_int (item - 1) + v / 100) \<longrightarrow>
      item_progress item (Fin v) = Inr (trunc_zero (of_int (item - 1) + v / 100)))
   \<and> (1 \<le> item \<and> item < 2 ^ 53 \<and> 0 \<le> v \<and> v \<le> 100 \<longrightarrow>
        (\<exists>p. item_progress item (Fin v) = Inr p \<and> item - 1 \<le> p \<and> p \<le> item))
   \<and> current_item (run_download NotFound s) = 0
   \<and> (reduce s (ItemProgress i t) = Inr s' \<longrightarrow>
        current_item s' = int i \<and> playlist_total s' = int t)
   \<and> progress_after
        [''[download] Downloading item 3 of 10'', ''[download]  50.0% of 3.45MiB''] mounted
      = Some (2, 10)
   \<and> run_download (Spawned pid lines returncode) s0 =
        (case read_lines lines
           (s0\<lparr>playlist_name := None, playlist_total := 0, current_item := 0,
               current_filename := None, download_process := Some pid\<rparr>) of
           Inl (e, s1) \<Rightarrow> on_exception (message e) s1
         | Inr s1 \<Rightarrow> on_exit returncode s1)
   \<and> (reduce s ev = Inr s2 \<longrightarrow>
        current_item s2 = (case ev of ItemProgress n m \<Rightarrow> int n | _ \<Rightarrow> current_item s))
   \<and> (read_lines lines s = Inr s3 \<longrightarrow>
        current_item s3 = last_item_index (current_item s) lines)
   \<and> (strip raw \<noteq> [] \<and> classify (strip raw) = ItemPercent percent \<and> 0 < playlist_total s
        \<and> item_progress (current_item s) percent = Inl e \<longrightarrow>
      read_lines (raw # rest) s = Inl (e, log_message (strip raw) s))
   \<and> (2 ^ 1024 \<le> item - 1 \<longrightarrow>
        item_progress item percent
          = Inl (OverflowError ''int too large to convert to float''))
   \<and> (1 \<le> item \<and> item < 2 ^ 53 \<longrightarrow>
        item_progress item PInf
          = Inl (OverflowError ''cannot convert float infinity to integer''))
   \<and> (ds \<noteq> [] \<and> (\<forall>c \<in> set ds. is_digit c) \<and> 2 ^ 1024 \<le> int_of_digits ds
        \<and> 0 < playlist_total s \<and> 1 \<le> current_item s \<and> current_item s < 2 ^ 53 \<longrightarrow>
      read_lines ((''[download] '' @ ds @ ''%'') # rest) s
        = Inl (OverflowError ''cannot convert float infinity to integer'',
               log_message (''[download] '' @ ds @ ''%'') s))"
proof (intro conjI)
  show "(0 < playlist_total s \<longrightarrow>
      reduce s (ItemPercent percent) =
        (case item_progress (current_item s) percent of
           Inl e \<Rightarrow> Inl e
         | Inr p \<Rightarrow> Inr (s\<lparr>bar_progress := p, bar_total := playlist_total s\<rparr>)))"
    by (simp add: update_progress_def split: sum.split)
next
  show "(to_double (of_int (item - 1)) = Fin (of_int (item - 1))
        \<and> to_double (v / 100) = Fin (v / 100)
        \<and> to_double (of_int (item - 1) + v / 100) = Fin (of_int (item - 1) + v / 100) \<longrightarrow>
      item_progress item (Fin v) = Inr (trunc_zero (of_int (item - 1) + v / 100)))"
    by (simp add: item_progress_def float_of_int_def)
next
  show "(1 \<le> item \<and> item < 2 ^ 53 \<and> 0 \<le> v \<and> v \<le> 100 \<longrightarrow>
        (\<exists>p. item_progress item (Fin v) = Inr p \<and> item - 1 \<le> p \<and> p \<le> item))"
    using item_progress_between [of item v] by blast
next
  show "current_item (run_download NotFound s) = 0"
    by (simp add: run_download_def on_not_found_def reset_buttons_def update_status_def
        update_current_action_def update_current_file_def log_message_def)
next
  show "(reduce s (ItemProgress i t) = Inr s' \<longrightarrow>
        current_item s' = int i \<and> playlist_total s' = int t)"
    by (auto simp: update_progress_def update_status_def update_current_action_def)
next
  show "progress_after
        [''[download] Downloading item 3 of 10'', ''[download]  50.0% of 3.45MiB''] mounted
      = Some (2, 10)"
    by code_simp
next
  show "run_download (Spawned pid lines returncode) s0 =
        (case read_lines lines
           (s0\<lparr>playlist_name := None, playlist_total := 0, current_item := 0,
               current_filename := None, download_process := Some pid\<rparr>) of
           Inl (e, s1) \<Rightarrow> on_exception (message e) s1
         | Inr s1 \<Rightarrow> on_exit returncode s1)"
    by (rule run_download_spawned)
next
  show "(reduce s ev = Inr s2 \<longrightarrow>
        current_item s2 = (case ev of ItemProgress n m \<Rightarrow> int n | _ \<Rightarrow> current_item s))"
    using reduce_current_item [of s ev s2] by blast
next
  show "(read_lines lines s = Inr s3 \<longrightarrow>
        current_item s3 = last_item_index (current_item s) lines)"
    using read_lines_current_item [of lines s s3] by blast
next
  show "(strip raw \<noteq> [] \<and> classify (strip raw) = ItemPercent percent \<and> 0 < playlist_total s
        \<and> item_progress (current_item s) percent = Inl e \<longrightarrow>
      read_lines (raw # rest) s = Inl (e, log_message (strip raw) s))"
    by (simp add: process_line_def Let_def log_message_def)
next
  show "(2 ^ 1024 \<le> item - 1 \<longrightarrow>
        item_progress item percent
          = Inl (OverflowError ''int too large to convert to float''))"
    using item_progress_too_large [of item percent] by blast
next
  show "(1 \<le> item \<and> item < 2 ^ 53 \<longrightarrow>
        item_progress item PInf
          = Inl (OverflowError ''cannot convert float infinity to integer''))"
    using item_progress_infinite [of item] by blast
next
  show "(ds \<noteq> [] \<and> (\<forall>c \<in> set ds. is_digit c) \<and> 2 ^ 1024 \<le> int_of_digits ds
        \<and> 0 < playlist_total s \<and> 1 \<le> current_item s \<and> current_item s < 2 ^ 53 \<longrightarrow>
      read_lines ((''[download] '' @ ds @ ''%'') # rest) s
        = Inl (OverflowError ''cannot convert float infinity to integer'',
               log_message (''[download] '' @ ds @ ''%'') s))"
    proof (rule impI, elim conjE)
    assume "ds \<noteq> []" "\<forall>c \<in> set ds. is_digit c" "2 ^ 1024 \<le> int_of_digits ds"
      "0 < playlist_total s" "1 \<le> current_item s" "current_item s < 2 ^ 53"
    then have "process_line (''[download] '' @ ds @ ''%'') s
        = Inl (OverflowError ''cannot convert float infinity to integer'',
               log_message (''[download] '' @ ds @ ''%'') s)"
      by (rule process_line_percent_overflow)
    then show "read_lines ((''[download] '' @ ds @ ''%'') # rest) s
        = Inl (OverflowError ''cannot convert float infinity to integer'',
               log_message (''[download] '' @ ds @ ''%'') s)"
      by (rule read_lines_raise)
  qed
qed

theorem reduce_ItemPercent_known_total_witness:
  "reduce (mounted\<lparr>playlist_total := 10, current_item := 3\<rparr>) (ItemPercent (Fin 50)) =
     Inr (mounted\<lparr>playlist_total := 10, current_item := 3, bar_progress := 2, bar_total := 10\<rparr>)
   \<and> item_progress 3 (Fin 50) = Inr 2
   \<and> read_lines
        [''[download] '' @ replicate 310 CHR ''9'' @ ''%'', ''[download] Downloading item 4 of 10'']
        (mounted\<lparr>playlist_total := 10, current_item := 3\<rparr>)
      = Inl (OverflowError ''cannot convert float infinity to integer'',
             log_message (''[download] '' @ replicate 310 CHR ''9'' @ ''%'')
               (mounted\<lparr>playlist_total := 10, current_item := 3\<rparr>))
   \<and> current_item
        (mounted\<lparr>download_process := Some 7,
           download_log := [''[download] Downloading item 1 of 2''],
           current_item := 1, playlist_total := 2,
           current_action := g_down @ '' Downloading track 1 of 2'',
           status := g_hourglass @ '' Downloading 1/2'', bar_progress := 0, bar_total := 2\<rparr>)
      = last_item_index 0 [''[download] Downloading item 1 of 2'']"
proof -
  let ?s = "mounted\<lparr>playlist_total := 10, current_item := 3\<rparr>"
  note T = reduce_ItemPercent_known_total
    [where s = ?s and percent = "Fin 50" and item = 3 and v = 50
       and ds = "replicate 310 CHR ''9''"
       and rest = "[''[download] Downloading item 4 of 10'']"]
  note U = reduce_ItemPercent_known_total
    [where s = "mounted\<lparr>playlist_name := None, playlist_total := 0, current_item := 0,
        current_filename := None, download_process := Some 7\<rparr>"
       and lines = "[''[download] Downloading item 1 of 2'']"
       and ?s3.0 = "mounted\<lparr>download_process := Some 7,
           download_log := [''[download] Downloading item 1 of 2''],
           current_item := 1, playlist_total := 2,
           current_action := g_down @ '' Downloading track 1 of 2'',
           status := g_hourglass @ '' Downloading 1/2'', bar_progress := 0, bar_total := 2\<rparr>"]
  have exact: "to_double (of_int (3 - 1)) = Fin (of_int (3 - 1))
      \<and> to_double (50 / 100) = Fin (50 / 100)
      \<and> to_double (of_int (3 - 1) + 50 / 100) = Fin (of_int (3 - 1) + 50 / 100)"
    using to_double_2 to_double_half to_double_5_2 by simp
  have "item_progress 3 (Fin 50) = Inr (trunc_zero (of_int (3 - 1) + 50 / 100))"
    using T exact by blast
  then have ip: "item_progress 3 (Fin 50) = Inr 2"
    using trunc_zero_5_2 by simp
  have "0 < playlist_total ?s"
    by simp
  then have "reduce ?s (ItemPercent (Fin 50)) =
        (case item_progress (current_item ?s) (Fin 50) of
           Inl e \<Rightarrow> Inl e
         | Inr p \<Rightarrow> Inr (?s\<lparr>bar_progress := p, bar_total := playlist_total ?s\<rparr>))"
    using T by blast
  then have a: "reduce ?s (ItemPercent (Fin 50)) =
     Inr (mounted\<lparr>playlist_total := 10, current_item := 3, bar_progress := 2, bar_total := 10\<rparr>)"
    using ip by simp
  have hyp: "replicate 310 CHR ''9'' \<noteq> [] \<and> (\<forall>c \<in> set (replicate 310 CHR ''9''). is_digit c)
      \<and> 2 ^ 1024 \<le> int_of_digits (replicate 310 CHR ''9'')
      \<and> 0 < playlist_total ?s \<and> 1 \<le> current_item ?s \<and> current_item ?s < 2 ^ 53"
  proof (intro conjI)
    show "replicate 310 CHR ''9'' \<noteq> []"
      using nines_310_digits by (rule conjunct1)
    show "\<forall>c \<in> set (replicate 310 CHR ''9''). is_digit c"
      using nines_310_digits by (rule conjunct2)
    show "2 ^ 1024 \<le> int_of_digits (replicate 310 CHR ''9'')"
      by (rule nines_310_large)
  qed simp_all
  have b: "read_lines
        [''[download] '' @ replicate 310 CHR ''9'' @ ''%'', ''[download] Downloading item 4 of 10'']
        ?s
      = Inl (OverflowError ''cannot convert float infinity to integer'',
             log_message (''[download] '' @ replicate 310 CHR ''9'' @ ''%'') ?s)"
    by (rule T [THEN conjunct2, THEN conjunct2, THEN conjunct2, THEN conjunct2, THEN conjunct2,
          THEN conjunct2, THEN conjunct2, THEN conjunct2, THEN conjunct2, THEN conjunct2,
          THEN conjunct2, THEN conjunct2, THEN mp, OF hyp])
  have c: "current_item
        (mounted\<lparr>download_process := Some 7,
           download_log := [''[download] Downloading item 1 of 2''],
           current_item := 1, playlist_total := 2,
           current_action := g_down @ '' Downloading track 1 of 2'',
           status := g_hourglass @ '' Downloading 1/2'', bar_progress := 0, bar_total := 2\<rparr>)
      = last_item_index
          (current_item (mounted\<lparr>playlist_name := None, playlist_total := 0, current_item := 0,
             current_filename := None, download_process := Some 7\<rparr>))
          [''[download] Downloading item 1 of 2'']"
    by (rule U [THEN conjunct2, THEN conjunct2, THEN conjunct2, THEN conjunct2, THEN conjunct2,
          THEN conjunct2, THEN conjunct2, THEN conjunct2, THEN conjunct1, THEN mp,
          OF read_item_1_of_2])
  have d: "current_item (mounted\<lparr>playlist_name := None, playlist_total := 0, current_item := 0,
             current_filename := None, download_process := Some 7\<rparr>) = 0"
    by simp
  show ?thesis
    using a ip b c [unfolded d] by (intro conjI)
qed

subsection \<open>The branch for the track URL\<close>

lemma marker_in_track_url: "sublist ''Extracting URL:'' ''[youtube] Extracting URL: https://''"
  by (simp add: sublist_code)

lemma track_url_needs_marker:
  "re_search rx_track_url line = Some m \<Longrightarrow> contains ''Extracting URL:'' line"
  unfolding rx_track_url_def contains_def
  using re_search_lit_sublist marker_in_track_url sublist_order.order.trans by blast

lemma track_url_None:
  "\<not> contains ''Extracting URL:'' line \<Longrightarrow> re_search rx_track_url line = None"
  using track_url_needs_marker by (cases "re_search rx_track_url line") auto

lemma classify_drop_track_url: "classify line = classify_without_track_url line"
proof (cases "contains ''Extracting URL:'' line")
  case True
  then show ?thesis
    by (simp add: classify_def classify_without_track_url_def)
next
  case False
  then have none: "re_search rx_track_url line = None"
    by (rule track_url_None)
  show ?thesis
    unfolding classify_def classify_without_track_url_def
    by (simp only: none option.case)
qed

lemma match_here_lit: "match_here [RLit l] s = (if prefix l s then Some [l] else None)"
  by (simp add: lit_def)

lemma re_search_lit_found: "sublist l s \<Longrightarrow> re_search [RLit l] s \<noteq> None"
proof (induction s)
  case Nil
  then show ?case by (simp add: match_here_lit del: match_here.simps)
next
  case (Cons c cs)
  then show ?case
    by (auto simp: match_here_lit sublist_Cons_right simp del: match_here.simps)
qed

lemma first_match_Nil: "first_match [] line = Unrecognized"
  by (simp add: first_match_def)

lemma first_match_Cons:
  "first_match (r # rs) line = (case r line of None \<Rightarrow> first_match rs line | Some e \<Rightarrow> e)"
  by (cases "r line") (simp_all add: first_match_def)

lemma case_rule_if:
  "(case (if c then Some e else None) of None \<Rightarrow> g | Some v \<Rightarrow> f v) = (if c then f e else g)"
  by simp

lemma case_rule_map:
  "(case map_option h x of None \<Rightarrow> g | Some v \<Rightarrow> f v) = (case x of None \<Rightarrow> g | Some m \<Rightarrow> f (h m))"
  by (cases x) simp_all

lemma already_downloaded_found:
  "(if contains a line \<and> contains b line then AlreadyDownloaded (re_search [RLit b] line \<noteq> None)
    else x) =
   (if contains a line \<and> contains b line then AlreadyDownloaded True else x)"
  by (simp add: re_search_lit_found contains_def)

lemma classify_chain_rules: "classify line = first_match chain_rules line"
  unfolding classify_drop_track_url
  by (simp only: classify_without_track_url_def chain_rules_def
      first_match_Cons first_match_Nil case_rule_if case_rule_map already_downloaded_found
      rule_extracting_url_def rule_redirect_def rule_fetching_def rule_playlist_found_def
      rule_item_count_def rule_item_progress_def rule_video_id_def rule_destination_def
      rule_percent_def rule_already_downloaded_def rule_converting_audio_def
      rule_thumbnail_def rule_metadata_def rule_cleanup_def rule_warning_def rule_error_def)

lemma first_match_cases:
  "first_match rules line = Unrecognized \<or> (\<exists>r \<in> set rules. r line = Some (first_match rules line))"
proof (induction rules)
  case Nil
  then show ?case by (simp add: first_match_Nil)
next
  case (Cons r rs)
  then show ?case
    by (cases "r line") (auto simp: first_match_Cons)
qed

lemma chain_rules_no_track_info:
  "r \<in> set chain_rules \<Longrightarrow> r line \<noteq> Some ExtractingTrackInfo"
  by (auto simp: chain_rules_def
      rule_extracting_url_def rule_redirect_def rule_fetching_def rule_playlist_found_def
      rule_item_count_def rule_item_progress_def rule_video_id_def rule_destination_def
      rule_percent_def rule_already_downloaded_def rule_converting_audio_def
      rule_thumbnail_def rule_metadata_def rule_cleanup_def rule_warning_def rule_error_def
      split: if_splits)

lemma classify_not_track_info: "classify line \<noteq> ExtractingTrackInfo"
  using first_match_cases [of chain_rules line] chain_rules_no_track_info [of _ line]
  by (auto simp: classify_chain_rules)

text \<open>
  Claim C10. Every line that contains \<open>Extracting URL:\<close> takes the first branch. The
  pattern of the later branch, \<open>[youtube] Extracting URL: https://...\<close>, matches only lines
  that contain \<open>Extracting URL:\<close>, so that branch is never taken, and the chain without it
  classifies every line as the chain does.
\<close>

theorem track_url_branch_unreachable:
  "(contains ''Extracting URL:'' line \<longrightarrow> classify line = ExtractingUrl)
   \<and> (re_search rx_track_url line \<noteq> None \<longrightarrow> contains ''Extracting URL:'' line)
   \<and> classify line \<noteq> ExtractingTrackInfo
   \<and> classify line = classify_without_track_url line"
proof (intro conjI)
  show "contains ''Extracting URL:'' line \<longrightarrow> classify line = ExtractingUrl"
    by (simp add: classify_def)
  show "re_search rx_track_url line \<noteq> None \<longrightarrow> contains ''Extracting URL:'' line"
  proof
    assume "re_search rx_track_url line \<noteq> None"
    then obtain m where "re_search rx_track_url line = Some m"
      by (cases "re_search rx_track_url line") simp_all
    then show "contains ''Extracting URL:'' line"
      by (rule track_url_needs_marker)
  qed
  show "classify line \<noteq> ExtractingTrackInfo"
    by (rule classify_not_track_info)
  show "classify line = classify_without_track_url line"
    by (rule classify_drop_track_url)
qed

theorem track_url_branch_unreachable_witness:
  "contains ''Extracting URL:'' ''[youtube] Extracting URL: https://www.youtube.com/watch?v=abc''
   \<and> classify ''[youtube] Extracting URL: https://www.youtube.com/watch?v=abc'' = ExtractingUrl
   \<and> re_search rx_track_url ''[youtube] Extracting URL: https://www.youtube.com/watch?v=abc''
       \<noteq> None"
proof -
  let ?l = "''[youtube] Extracting URL: https://www.youtube.com/watch?v=abc''"
  have r: "re_search rx_track_url ?l \<noteq> None"
    by code_simp
  have "re_search rx_track_url ?l \<noteq> None \<longrightarrow> contains ''Extracting URL:'' ?l"
    using track_url_branch_unreachable [of ?l] by (elim conjE)
  with r have c: "contains ''Extracting URL:'' ?l"
    by (rule rev_mp)
  have "contains ''Extracting URL:'' ?l \<longrightarrow> classify ?l = ExtractingUrl"
    using track_url_branch_unreachable [of ?l] by (elim conjE)
  with c have "classify ?l = ExtractingUrl"
    by (rule rev_mp)
  with c r show ?thesis
    by (intro conjI)
qed

subsection \<open>The order of the rules\<close>

text \<open>
  Claim C3, as stated, fails. The chain has a branch that section 4.1 does not list, for
  \<open>[youtube] <id>: Downloading ios player API JSON\<close> and its like; it stands before the
  rules for destinations, percentages, warnings and errors, and its body changes nothing.
  The line below matches it, and rule 15 of section 4.1 (\<open>ERROR:\<close>) is the first rule of
  that section to match: read in the order of section 4.1 the line is an error, and the
  action and the status change; the code leaves the state as it is.
\<close>

theorem classify_order_counterexample:
  "classify ''ERROR: [youtube] abc: Downloading ios player API JSON: HTTP Error 403''
     = VideoId ''abc''
   \<and> classify_spec ''ERROR: [youtube] abc: Downloading ios player API JSON: HTTP Error 403''
     = Error
   \<and> reduce mounted (VideoId ''abc'') = Inr mounted
   \<and> reduce mounted Error \<noteq> Inr mounted"
proof -
  have "classify ''ERROR: [youtube] abc: Downloading ios player API JSON: HTTP Error 403''
     = VideoId ''abc''"
    by code_simp
  moreover have
    "classify_spec ''ERROR: [youtube] abc: Downloading ios player API JSON: HTTP Error 403''
     = Error"
    by code_simp
  moreover have "current_action mounted = ''Ready''"
    by (simp add: mounted_def)
  then have "reduce mounted Error \<noteq> Inr mounted"
    by (auto simp: update_status_def update_current_action_def g_cross_def
        dest!: arg_cong [where f = current_action])
  moreover have "reduce mounted (VideoId ''abc'') = Inr mounted"
    by simp
  ultimately show ?thesis
    by blast
qed

text \<open>
  Claim C3, amended. The classifier is a total function of the line. It gives the event
  of the first rule that matches, in the order of section 4.1 with one more rule between
  rules 6 and 7, the rule for \<open>[youtube] <id>: Downloading (webpage | ios player API JSON |
  android player API JSON)\<close>, whose event changes nothing; when no rule matches it gives
  \<open>Unrecognized\<close>. For a line that no rule matches, the loop logs the line and changes
  nothing else: the action, the status and the progress fields stay as they are.
\<close>

theorem classify_first_match:
  "classify line = first_match chain_rules line
   \<and> chain_rules = take 6 spec_rules @ [rule_video_id] @ drop 6 spec_rules
   \<and> ((\<forall>r \<in> set chain_rules. r line = None) \<longrightarrow> classify line = Unrecognized)
   \<and> (classify line = Unrecognized \<or> classify line = VideoId v \<longrightarrow>
        reduce s (classify line) = Inr s)
   \<and> (strip raw \<noteq> [] \<and> (\<forall>r \<in> set chain_rules. r (strip raw) = None) \<longrightarrow>
        process_line raw s = Inr (s\<lparr>download_log := download_log s @ [strip raw]\<rparr>))"
proof -
  have none: "classify l = Unrecognized" if "\<forall>r \<in> set chain_rules. r l = None" for l
    using first_match_cases [of chain_rules l] that by (auto simp: classify_chain_rules)
  have "chain_rules = take 6 spec_rules @ [rule_video_id] @ drop 6 spec_rules"
    by (simp add: chain_rules_def spec_rules_def)
  moreover have "classify line = Unrecognized \<or> classify line = VideoId v \<longrightarrow>
        reduce s (classify line) = Inr s"
    using reduce.simps(8) [of s v] reduce.simps(18) [of s] by metis
  moreover have "strip raw \<noteq> [] \<and> (\<forall>r \<in> set chain_rules. r (strip raw) = None) \<longrightarrow>
        process_line raw s = Inr (s\<lparr>download_log := download_log s @ [strip raw]\<rparr>)"
    using none [of "strip raw"] by (auto simp: process_line_def Let_def log_message_def)
  ultimately show ?thesis
    using none [of line] classify_chain_rules by blast
qed

theorem classify_first_match_witness:
  "classify ''[info] abc: Downloading 1 format(s): 251'' = Unrecognized
   \<and> process_line (''[info] abc: Downloading 1 format(s): 251'' @ [CHR 0x0A]) mounted =
       Inr (mounted\<lparr>download_log := [''[info] abc: Downloading 1 format(s): 251'']\<rparr>)"
proof -
  have n: "\<forall>r \<in> set chain_rules. r ''[info] abc: Downloading 1 format(s): 251'' = None"
    by code_simp
  have st: "strip (''[info] abc: Downloading 1 format(s): 251'' @ [CHR 0x0A])
      = ''[info] abc: Downloading 1 format(s): 251''"
    by code_simp
  have "download_log mounted = []"
    by (simp add: mounted_def)
  then have "mounted\<lparr>download_log := download_log mounted @
        [strip (''[info] abc: Downloading 1 format(s): 251'' @ [CHR 0x0A])]\<rparr>
      = mounted\<lparr>download_log := [''[info] abc: Downloading 1 format(s): 251'']\<rparr>"
    using st by simp
  moreover have "strip (''[info] abc: Downloading 1 format(s): 251'' @ [CHR 0x0A]) \<noteq> []"
    using st by simp
  moreover have "\<forall>r \<in> set chain_rules.
      r (strip (''[info] abc: Downloading 1 format(s): 251'' @ [CHR 0x0A])) = None"
    using n st by simp
  ultimately show ?thesis
    using classify_first_match
      [of "''[info] abc: Downloading 1 format(s): 251''" undefined mounted
          "''[info] abc: Downloading 1 format(s): 251'' @ [CHR 0x0A]"] n
    by metis
qed

subsection \<open>The progress counters along the lines\<close>

lemma chain_rules_percent:
  "r \<in> set chain_rules \<Longrightarrow> r line = Some (ItemPercent p) \<Longrightarrow> nonneg_float p"
  by (auto simp: chain_rules_def nonneg_float_py_float
      rule_extracting_url_def rule_redirect_def rule_fetching_def rule_playlist_found_def
      rule_item_count_def rule_item_progress_def rule_video_id_def rule_destination_def
      rule_percent_def rule_already_downloaded_def rule_converting_audio_def
      rule_thumbnail_def rule_metadata_def rule_cleanup_def rule_warning_def rule_error_def
      split: if_splits)

lemma classify_percent_nonneg: "classify line = ItemPercent p \<Longrightarrow> nonneg_float p"
  using first_match_cases [of chain_rules line] chain_rules_percent [of _ line p]
  by (auto simp: classify_chain_rules)

lemma reduce_counters:
  assumes "0 \<le> playlist_total s" "0 \<le> current_item s" "- 1 \<le> bar_progress s"
    and "\<And>p. ev = ItemPercent p \<Longrightarrow> nonneg_float p"
    and "reduce s ev = Inr s'"
  shows "0 \<le> playlist_total s' \<and> 0 \<le> current_item s' \<and> - 1 \<le> bar_progress s'"
proof (cases ev)
  case (ItemPercent p)
  show ?thesis
  proof (cases "0 < playlist_total s")
    case True
    with assms(5) ItemPercent obtain q where q: "item_progress (current_item s) p = Inr q"
      and s': "s' = update_progress q (playlist_total s) s"
      by (auto split: sum.splits)
    have "- 1 \<le> q"
      using assms(2) assms(4) [OF ItemPercent] q by (rule item_progress_ge_m1)
    with s' assms(1,2) show ?thesis
      by (simp add: update_progress_def)
  next
    case False
    with assms ItemPercent show ?thesis by simp
  qed
next
  case (AlreadyDownloaded found)
  with assms show ?thesis
    by (auto simp: update_current_action_def update_current_file_def Let_def
        split: option.splits if_splits)
next
  case (ConvertingAudio dest)
  with assms show ?thesis
    by (auto simp: update_current_action_def update_current_file_def Let_def
        split: option.splits if_splits)
qed (use assms in \<open>auto simp: update_current_action_def update_current_file_def
      update_status_def update_playlist_info_def update_progress_def Let_def
      split: if_splits\<close>)

lemma process_line_counters:
  assumes "0 \<le> playlist_total s" "0 \<le> current_item s" "- 1 \<le> bar_progress s"
    and "process_line raw s = Inr s' \<or> process_line raw s = Inl (e, s')"
  shows "0 \<le> playlist_total s' \<and> 0 \<le> current_item s' \<and> - 1 \<le> bar_progress s'"
proof (cases "strip raw = []")
  case True
  with assms show ?thesis
    by (simp add: process_line_def)
next
  case False
  let ?s1 = "log_message (strip raw) s"
  have s1: "0 \<le> playlist_total ?s1" "0 \<le> current_item ?s1" "- 1 \<le> bar_progress ?s1"
    using assms(1-3) by (simp_all add: log_message_def)
  show ?thesis
  proof (cases "reduce ?s1 (classify (strip raw))")
    case (Inl x)
    with assms(4) False have "s' = ?s1"
      by (simp add: process_line_def Let_def)
    with s1 show ?thesis by simp
  next
    case (Inr s2)
    with assms(4) False have "s' = s2"
      by (simp add: process_line_def Let_def)
    with Inr s1 classify_percent_nonneg [of "strip raw"] show ?thesis
      using reduce_counters [of ?s1 "classify (strip raw)" s'] by blast
  qed
qed

lemma read_lines_counters:
  "0 \<le> playlist_total s \<Longrightarrow> 0 \<le> current_item s \<Longrightarrow> - 1 \<le> bar_progress s \<Longrightarrow>
   read_lines lines s = Inr s' \<or> read_lines lines s = Inl (e, s') \<Longrightarrow>
   0 \<le> playlist_total s' \<and> 0 \<le> current_item s' \<and> - 1 \<le> bar_progress s'"
proof (induction lines arbitrary: s)
  case Nil
  then show ?case by simp
next
  case (Cons raw rest)
  show ?case
  proof (cases "process_line raw s")
    case (Inl x)
    with Cons.prems(4) have "process_line raw s = Inl (e, s')"
      by simp
    with Cons.prems(1-3) show ?thesis
      using process_line_counters [of s raw s' e] by blast
  next
    case (Inr s1)
    then have "0 \<le> playlist_total s1 \<and> 0 \<le> current_item s1 \<and> - 1 \<le> bar_progress s1"
      using Cons.prems(1-3) process_line_counters [of s raw s1 e] by blast
    moreover have "read_lines rest s1 = Inr s' \<or> read_lines rest s1 = Inl (e, s')"
      using Cons.prems(4) Inr by simp
    ultimately show ?thesis
      using Cons.IH [of s1] by blast
  qed
qed

lemma reduce_total_frame:
  assumes "reduce s ev = Inr s'"
    and "\<And>a t. ev \<noteq> PlaylistItemCount a t" "\<And>i t. ev \<noteq> ItemProgress i t"
  shows "playlist_total s' = playlist_total s"
  using assms
  by (cases ev)
    (auto simp: update_current_action_def update_current_file_def update_status_def
      update_playlist_info_def update_progress_def Let_def
      split: if_splits option.splits sum.splits)

text \<open>
  Claim C1, as stated, fails. A percentage line that follows the item count with no item
  line between them takes the progress to \<open>int(-1 + 0.0) = -1\<close>; an item line with an
  index above its total takes the progress above the total; an item line with a smaller
  total than the one before takes the total down, as happens when one playlist follows
  another in the same run.
\<close>

theorem progress_bounds_counterexample:
  "progress_after
     [''[youtube:tab] Playlist Test: Downloading 2 items of 2'', ''[download]   0.0% of 3.45MiB'']
     mounted = Some (- 1, 2)
   \<and> progress_after [''[download] Downloading item 7 of 3''] mounted = Some (6, 3)
   \<and> \<not> (6 :: int) \<le> max 3 1
   \<and> progress_after [''[download] Downloading item 1 of 10''] mounted = Some (0, 10)
   \<and> progress_after
       [''[download] Downloading item 1 of 10'', ''[download] Downloading item 1 of 5'']
       mounted = Some (0, 5)"
proof (intro conjI)
  show "progress_after
     [''[youtube:tab] Playlist Test: Downloading 2 items of 2'', ''[download]   0.0% of 3.45MiB'']
     mounted = Some (- 1, 2)"
    by code_simp
  show "progress_after [''[download] Downloading item 7 of 3''] mounted = Some (6, 3)"
    by code_simp
  show "\<not> (6 :: int) \<le> max 3 1"
    by simp
  show "progress_after [''[download] Downloading item 1 of 10''] mounted = Some (0, 10)"
    by code_simp
  show "progress_after
       [''[download] Downloading item 1 of 10'', ''[download] Downloading item 1 of 5'']
       mounted = Some (0, 5)"
    by code_simp
qed

text \<open>
  Claim C1, amended. Let the lines of the child be read from a state with a playlist
  total and an item index of 0 or more and a progress of \<open>-1\<close> or more, as the state at
  the start of a run is. After each line, and also when a line raises, the playlist total
  is 0 or more and the progress is \<open>-1\<close> or more. The total is set by every item count (to
  the number available) and by every item line (to its total), whether that is more or
  less than before; the item count sets the progress to 0 and the item line to its index
  less one; no other event changes the total. The progress lies between 0 and the larger
  of the total and 1 after an item line whose index is between 1 and its total, and after
  a percentage between 0 and 100 when the item index is between 1 and the playlist total
  and that is below \<open>2^53\<close>.
\<close>

theorem progress_counters_invariant:
  "(0 \<le> playlist_total s \<and> 0 \<le> current_item s \<and> - 1 \<le> bar_progress s
      \<and> (read_lines (take n lines) s = Inr s' \<or> read_lines (take n lines) s = Inl (e, s'))
     \<longrightarrow> 0 \<le> playlist_total s' \<and> - 1 \<le> bar_progress s')
   \<and> (reduce s (PlaylistItemCount a t) = Inr s' \<longrightarrow>
        playlist_total s' = int a \<and> bar_progress s' = 0)
   \<and> (reduce s (ItemProgress i t) = Inr s' \<longrightarrow>
        playlist_total s' = int t \<and> bar_progress s' = int i - 1)
   \<and> (reduce s ev = Inr s' \<and> (\<forall>a t. ev \<noteq> PlaylistItemCount a t)
        \<and> (\<forall>i t. ev \<noteq> ItemProgress i t) \<longrightarrow>
        playlist_total s' = playlist_total s)
   \<and> (1 \<le> i \<and> i \<le> t \<and> reduce s (ItemProgress i t) = Inr s' \<longrightarrow>
        0 \<le> bar_progress s' \<and> bar_progress s' \<le> max (playlist_total s') 1)
   \<and> (1 \<le> current_item s \<and> current_item s \<le> playlist_total s
        \<and> playlist_total s < 2 ^ 53 \<and> 0 \<le> pv \<and> pv \<le> 100 \<longrightarrow>
        (\<exists>s2. reduce s (ItemPercent (Fin pv)) = Inr s2 \<and> playlist_total s2 = playlist_total s
           \<and> 0 \<le> bar_progress s2 \<and> bar_progress s2 \<le> max (playlist_total s2) 1))"
proof (intro conjI)
  show "1 \<le> i \<and> i \<le> t \<and> reduce s (ItemProgress i t) = Inr s' \<longrightarrow>
        0 \<le> bar_progress s' \<and> bar_progress s' \<le> max (playlist_total s') 1"
    by (auto simp: update_progress_def update_status_def update_current_action_def)
  show "1 \<le> current_item s \<and> current_item s \<le> playlist_total s
        \<and> playlist_total s < 2 ^ 53 \<and> 0 \<le> pv \<and> pv \<le> 100 \<longrightarrow>
        (\<exists>s2. reduce s (ItemPercent (Fin pv)) = Inr s2 \<and> playlist_total s2 = playlist_total s
           \<and> 0 \<le> bar_progress s2 \<and> bar_progress s2 \<le> max (playlist_total s2) 1)"
  proof
    assume h: "1 \<le> current_item s \<and> current_item s \<le> playlist_total s
        \<and> playlist_total s < 2 ^ 53 \<and> 0 \<le> pv \<and> pv \<le> 100"
    then obtain p where p: "item_progress (current_item s) (Fin pv) = Inr p"
        "current_item s - 1 \<le> p" "p \<le> current_item s"
      using item_progress_between [of "current_item s" pv] by auto
    with h show "\<exists>s2. reduce s (ItemPercent (Fin pv)) = Inr s2
        \<and> playlist_total s2 = playlist_total s
        \<and> 0 \<le> bar_progress s2 \<and> bar_progress s2 \<le> max (playlist_total s2) 1"
      by (simp add: update_progress_def)
  qed
  show "0 \<le> playlist_total s \<and> 0 \<le> current_item s \<and> - 1 \<le> bar_progress s
      \<and> (read_lines (take n lines) s = Inr s' \<or> read_lines (take n lines) s = Inl (e, s'))
     \<longrightarrow> 0 \<le> playlist_total s' \<and> - 1 \<le> bar_progress s'"
    using read_lines_counters [of s "take n lines" s' e] by blast
  show "reduce s (PlaylistItemCount a t) = Inr s' \<longrightarrow>
        playlist_total s' = int a \<and> bar_progress s' = 0"
    by (auto simp: update_progress_def update_playlist_info_def Let_def)
  show "reduce s (ItemProgress i t) = Inr s' \<longrightarrow>
        playlist_total s' = int t \<and> bar_progress s' = int i - 1"
    by (auto simp: update_progress_def update_status_def update_current_action_def)
  show "reduce s ev = Inr s' \<and> (\<forall>a t. ev \<noteq> PlaylistItemCount a t)
        \<and> (\<forall>i t. ev \<noteq> ItemProgress i t) \<longrightarrow>
        playlist_total s' = playlist_total s"
    using reduce_total_frame [of s ev s'] by blast
qed

theorem progress_counters_invariant_witness:
  "\<exists>s'. read_lines
          (take 2 [''[youtube:tab] Playlist Test: Downloading 2 items of 2'',
                   ''[download]   0.0% of 3.45MiB'', ''[download] 100% of 3.45MiB''])
          mounted = Inr s'
        \<and> bar_progress s' = - 1 \<and> 0 \<le> playlist_total s' \<and> - 1 \<le> bar_progress s'"
proof -
  let ?lines = "[''[youtube:tab] Playlist Test: Downloading 2 items of 2'',
                 ''[download]   0.0% of 3.45MiB'', ''[download] 100% of 3.45MiB'']"
  have "progress_after (take 2 ?lines) mounted = Some (- 1, 2)"
    by code_simp
  then obtain s' where r: "read_lines (take 2 ?lines) mounted = Inr s'"
    and p: "bar_progress s' = - 1"
    by (auto simp: progress_after_def split: sum.splits)
  have start: "0 \<le> playlist_total mounted \<and> 0 \<le> current_item mounted
      \<and> - 1 \<le> bar_progress mounted"
    by (simp add: mounted_def)
  have "0 \<le> playlist_total s' \<and> - 1 \<le> bar_progress s'"
    using progress_counters_invariant [of mounted 2 ?lines s'] start r by blast
  with r p show ?thesis
    by blast
qed

end
